theory Spec2Isabelle
  imports Complex_Main "HOL-Library.Log_Nat"
begin

section \<open>JavaScript numbers\<close>

text \<open>
  The forecasting code of \<^verbatim>\<open>src/index.js\<close> computes with JavaScript numbers. A number is
  modelled as a real together with the three non-finite values of IEEE arithmetic.
  Arithmetic on finite values is exact (the rounding error of doubles is modelled only
  where an array index is computed, see the next section), and the two zeros are not
  distinguished. \<^verbatim>\<open>undefined\<close> becomes \<open>NaN\<close> as soon as it enters arithmetic.
\<close>

datatype jsnum = Finite real | PosInf | NegInf | NaN

definition signedInf :: "real \<Rightarrow> jsnum" where
  "signedInf s = (if s = 0 then NaN else if 0 < s then PosInf else NegInf)"

fun js_neg :: "jsnum \<Rightarrow> jsnum" where
  "js_neg (Finite a) = Finite (- a)"
| "js_neg PosInf = NegInf"
| "js_neg NegInf = PosInf"
| "js_neg NaN = NaN"

fun js_add :: "jsnum \<Rightarrow> jsnum \<Rightarrow> jsnum" where
  "js_add NaN b = NaN"
| "js_add a NaN = NaN"
| "js_add (Finite a) (Finite b) = Finite (a + b)"
| "js_add PosInf NegInf = NaN"
| "js_add NegInf PosInf = NaN"
| "js_add PosInf b = PosInf"
| "js_add a PosInf = PosInf"
| "js_add NegInf b = NegInf"
| "js_add a NegInf = NegInf"

definition js_sub :: "jsnum \<Rightarrow> jsnum \<Rightarrow> jsnum" where
  "js_sub a b = js_add a (js_neg b)"

fun js_mul :: "jsnum \<Rightarrow> jsnum \<Rightarrow> jsnum" where
  "js_mul NaN b = NaN"
| "js_mul a NaN = NaN"
| "js_mul (Finite a) (Finite b) = Finite (a * b)"
| "js_mul (Finite a) PosInf = signedInf a"
| "js_mul (Finite a) NegInf = signedInf (- a)"
| "js_mul PosInf (Finite b) = signedInf b"
| "js_mul NegInf (Finite b) = signedInf (- b)"
| "js_mul PosInf PosInf = PosInf"
| "js_mul PosInf NegInf = NegInf"
| "js_mul NegInf PosInf = NegInf"
| "js_mul NegInf NegInf = PosInf"

fun js_div :: "jsnum \<Rightarrow> jsnum \<Rightarrow> jsnum" where
  "js_div NaN b = NaN"
| "js_div a NaN = NaN"
| "js_div (Finite a) (Finite b) = (if b = 0 then signedInf a else Finite (a / b))"
| "js_div (Finite a) b = Finite 0"
| "js_div PosInf (Finite b) = (if b < 0 then NegInf else PosInf)"
| "js_div NegInf (Finite b) = (if b < 0 then PosInf else NegInf)"
| "js_div a b = NaN"

text \<open>\<^verbatim>\<open>a > b\<close>: false whenever an operand is \<open>NaN\<close>.\<close>

fun js_gt :: "jsnum \<Rightarrow> jsnum \<Rightarrow> bool" where
  "js_gt NaN b = False"
| "js_gt a NaN = False"
| "js_gt (Finite a) (Finite b) = (b < a)"
| "js_gt PosInf PosInf = False"
| "js_gt PosInf b = True"
| "js_gt NegInf b = False"
| "js_gt (Finite a) PosInf = False"
| "js_gt (Finite a) NegInf = True"

text \<open>\<^verbatim>\<open>Math.max\<close>, \<^verbatim>\<open>Math.round\<close> (halves go up), \<^verbatim>\<open>Math.log\<close>, \<^verbatim>\<open>Math.sqrt\<close>, \<^verbatim>\<open>Math.cos\<close>.\<close>

fun Math_max :: "jsnum \<Rightarrow> jsnum \<Rightarrow> jsnum" where
  "Math_max NaN b = NaN"
| "Math_max a NaN = NaN"
| "Math_max PosInf b = PosInf"
| "Math_max a PosInf = PosInf"
| "Math_max NegInf b = b"
| "Math_max a NegInf = a"
| "Math_max (Finite a) (Finite b) = Finite (max a b)"

fun Math_round :: "jsnum \<Rightarrow> jsnum" where
  "Math_round (Finite a) = Finite (of_int \<lfloor>a + 1 / 2\<rfloor>)"
| "Math_round a = a"

fun Math_log :: "jsnum \<Rightarrow> jsnum" where
  "Math_log (Finite a) = (if 0 < a then Finite (ln a) else if a = 0 then NegInf else NaN)"
| "Math_log PosInf = PosInf"
| "Math_log a = NaN"

fun Math_sqrt :: "jsnum \<Rightarrow> jsnum" where
  "Math_sqrt (Finite a) = (if 0 \<le> a then Finite (sqrt a) else NaN)"
| "Math_sqrt PosInf = PosInf"
| "Math_sqrt a = NaN"

fun Math_cos :: "jsnum \<Rightarrow> jsnum" where
  "Math_cos (Finite a) = Finite (cos a)"
| "Math_cos a = NaN"

section \<open>Double rounding of the percentile index\<close>

text \<open>
  \<^verbatim>\<open>Math.floor(sortedResults.length * (level / 100))\<close> decides which array element is read,
  and both the quotient and the product are rounded to a double before the floor is taken.
  \<open>toDouble\<close> is round-to-nearest, ties-to-even, on a 53-bit significand: \<open>binaryExponent x\<close>
  is the \<open>e\<close> with \<open>2\<^sup>e \<le> x < 2\<^sup>e\<^sup>+\<^sup>1\<close>, the spacing of doubles there is \<open>2\<^sup>e\<^sup>-\<^sup>5\<^sup>2\<close>. The exponent
  range is unbounded in the model; array lengths and confidence levels are far from the
  limits of a double.
\<close>

definition roundHalfEven :: "rat \<Rightarrow> int" where
  "roundHalfEven x =
     (let f = \<lfloor>x\<rfloor>; d = x - of_int f
      in if d < 1 / 2 then f else if 1 / 2 < d then f + 1 else if even f then f else f + 1)"

definition binaryExponent :: "rat \<Rightarrow> int" where
  "binaryExponent x =
     (let (a, b) = quotient_of x; d = bitlen a - bitlen b
      in if 2 powi d \<le> x then d else d - 1)"

definition toDouble :: "rat \<Rightarrow> rat" where
  "toDouble x =
     (if x = 0 then 0
      else let ulp = 2 powi (binaryExponent \<bar>x\<bar> - 52)
           in sgn x * of_int (roundHalfEven (\<bar>x\<bar> / ulp)) * ulp)"

definition percentileIndex :: "nat \<Rightarrow> nat \<Rightarrow> int" where
  "percentileIndex n level = \<lfloor>toDouble (of_nat n * toDouble (of_nat level / 100))\<rfloor>"

section \<open>The random source and the sampler\<close>

text \<open>
  \<^verbatim>\<open>Math.random()\<close> is ambient: no function of the source takes a generator or a seed.
  The model makes the ambient sequence explicit as an infinite sequence of draws, each in
  \<open>[0, 1)\<close>, that every call consumes from the front.
\<close>

type_synonym rng = "nat \<Rightarrow> real"

definition Math_random :: "rng \<Rightarrow> real \<times> rng" where
  "Math_random r = (r 0, \<lambda>n. r (Suc n))"

text \<open>The sequence after \<open>k\<close> draws, and two sequences with the same first \<open>k\<close> draws.\<close>

definition rng_drop :: "nat \<Rightarrow> rng \<Rightarrow> rng" where
  "rng_drop k r = (\<lambda>n. r (n + k))"


record velocityData =
  velocities :: "real list"
  mean :: real
  stdDev :: real

record simulationParams =
  useHistoricalVelocity :: bool
  periodCount :: nat
  includeBlockers :: bool

definition sampleVelocity :: "velocityData \<Rightarrow> rng \<Rightarrow> jsnum \<times> rng" where
  "sampleVelocity velocityData r =
     (case Math_random r of (u1, r1) \<Rightarrow>
      case Math_random r1 of (u2, r2) \<Rightarrow>
        let z = js_mul (Math_sqrt (js_mul (Finite (- 2)) (Math_log (Finite u1))))
                       (Math_cos (js_mul (js_mul (Finite 2) (Finite pi)) (Finite u2)))
        in (Math_max (Finite 0)
              (Math_round (js_add (Finite (mean velocityData))
                                  (js_mul z (Finite (stdDev velocityData))))), r2))"

definition applyRandomBlockers :: "jsnum \<Rightarrow> rng \<Rightarrow> jsnum \<times> rng" where
  "applyRandomBlockers velocity r =
     (let blockerProbability = 2 / 10
      in case Math_random r of (u, r1) \<Rightarrow>
           if u < blockerProbability
           then (case Math_random r1 of (w, r2) \<Rightarrow>
                   let impactPercentage = 2 / 10 + w * (4 / 10)
                   in (Math_round (js_mul velocity (Finite (1 - impactPercentage))), r2))
           else (velocity, r1))"

section \<open>The simulation runner\<close>

record issue =
  customfield_10016 :: "real option"

record issuesData =
  issues :: "issue list option"

text \<open>\<^verbatim>\<open>issue.fields.customfield_10016 || 0\<close>: a missing field counts as zero.\<close>

definition calculateTotalRemainingStoryPoints :: "issuesData option \<Rightarrow> real" where
  "calculateTotalRemainingStoryPoints issuesData =
     (case issuesData of
        None \<Rightarrow> 0
      | Some d \<Rightarrow>
          (case issues d of
             None \<Rightarrow> 0
           | Some items \<Rightarrow>
               foldl (\<lambda>sum i. sum + (case customfield_10016 i of None \<Rightarrow> 0 | Some storyPoints \<Rightarrow> storyPoints))
                     0 items))"

text \<open>
  The \<^verbatim>\<open>while (remainingPoints > 0)\<close> loop of one trial. Its body draws a velocity, passes
  it through the blockers when \<^verbatim>\<open>params.includeBlockers\<close> is set, subtracts it and counts
  the period. The loop has no other exit, so it is a partial function: \<open>None\<close> is a trial
  that never ends.
\<close>

definition effectiveVelocityOfPeriod ::
  "velocityData \<Rightarrow> simulationParams \<Rightarrow> rng \<Rightarrow> jsnum \<times> rng" where
  "effectiveVelocityOfPeriod velocityData params r =
     (case sampleVelocity velocityData r of (velocity, r1) \<Rightarrow>
        if includeBlockers params then applyRandomBlockers velocity r1 else (velocity, r1))"

partial_function (option) trial_loop ::
  "velocityData \<Rightarrow> simulationParams \<Rightarrow> jsnum \<Rightarrow> nat \<Rightarrow> rng \<Rightarrow> (nat \<times> rng) option" where
  "trial_loop velocityData params remainingPoints periodsRequired r =
     (if js_gt remainingPoints (Finite 0)
      then (case effectiveVelocityOfPeriod velocityData params r of
              (effectiveVelocity, r') \<Rightarrow>
                trial_loop velocityData params (js_sub remainingPoints effectiveVelocity)
                  (periodsRequired + 1) r')
      else Some (periodsRequired, r))"

text \<open>
  The \<^verbatim>\<open>for\<close> loop over the trials; the first numeric argument counts the iterations that
  are still to run, \<open>simulationResults\<close> is the array the results are pushed to.
\<close>

fun trials ::
  "velocityData \<Rightarrow> simulationParams \<Rightarrow> real \<Rightarrow> nat \<Rightarrow> nat list \<Rightarrow> rng \<Rightarrow> (nat list \<times> rng) option" where
  "trials velocityData params totalStoryPoints 0 simulationResults r = Some (simulationResults, r)"
| "trials velocityData params totalStoryPoints (Suc n) simulationResults r =
     (case trial_loop velocityData params (Finite totalStoryPoints) 0 r of
        None \<Rightarrow> None
      | Some (periodsRequired, r') \<Rightarrow>
          trials velocityData params totalStoryPoints n (simulationResults @ [periodsRequired]) r')"

definition runMonteCarloSimulation ::
  "issuesData option \<Rightarrow> velocityData \<Rightarrow> nat \<Rightarrow> simulationParams \<Rightarrow> rng \<Rightarrow> (nat list \<times> rng) option" where
  "runMonteCarloSimulation issuesData velocityData iterations params r =
     (let totalStoryPoints = calculateTotalRemainingStoryPoints issuesData
      in trials velocityData params totalStoryPoints iterations [] r)"

section \<open>The percentile reducer\<close>

text \<open>
  A \<^verbatim>\<open>Date\<close> is its time value, the milliseconds since the epoch. In \<open>setDate\<close> the local zone
  is UTC (the zone in general follows in \<open>setDateLocal\<close>): \<^verbatim>\<open>setDate(today.getDate() + daysToAdd)\<close>
  moves the time value by whole days; a time value beyond the limit is an invalid date, and
  \<^verbatim>\<open>toISOString\<close> throws a \<^verbatim>\<open>RangeError\<close> on it. The date text \<^verbatim>\<open>YYYY-MM-DD\<close> is represented by
  the number of its day since the epoch.
\<close>

datatype error = RangeError

definition msPerDay :: int where
  "msPerDay = 86400000"

definition maxTimeValue :: int where
  "maxTimeValue = 8640000000000000"

definition setDate :: "int \<Rightarrow> int \<Rightarrow> int option" where
  "setDate today daysToAdd =
     (let t = today + daysToAdd * msPerDay
      in if \<bar>t\<bar> \<le> maxTimeValue then Some t else None)"

definition toISODate :: "int \<Rightarrow> int" where
  "toISODate t = t div msPerDay"

record confidenceInterval =
  confidence :: nat
  periodsRequired :: nat
  daysRemaining :: nat
  completionDate :: int

text \<open>
  The callback of \<^verbatim>\<open>confidenceLevels.map\<close>. \<open>today\<close> is the wall clock, read by
  \<^verbatim>\<open>new Date()\<close> inside the callback; \<open>calculateConfidenceIntervals\<close> below gives every
  callback the same reading (\<open>calculateConfidenceIntervalsAt\<close> does not). An index past the
  end reads \<^verbatim>\<open>undefined\<close>, the days to add are then \<open>NaN\<close>, the date is invalid and
  \<^verbatim>\<open>toISOString\<close> throws.
\<close>

definition intervalOfLevel :: "int \<Rightarrow> nat list \<Rightarrow> nat \<Rightarrow> error + confidenceInterval" where
  "intervalOfLevel today sortedResults level =
     (let index = percentileIndex (length sortedResults) level
      in if 0 \<le> index \<and> index < int (length sortedResults)
         then let periodsRequired = sortedResults ! nat index;
                  daysToAdd = periodsRequired * 14
              in (case setDate today (int daysToAdd) of
                    None \<Rightarrow> Inl RangeError
                  | Some completion \<Rightarrow>
                      Inr \<lparr>confidence = level, periodsRequired = periodsRequired,
                           daysRemaining = daysToAdd, completionDate = toISODate completion\<rparr>)
         else Inl RangeError)"

text \<open>\<^verbatim>\<open>Array.prototype.map\<close> with a callback that may throw: the first exception ends it.\<close>

fun mapLevels :: "(nat \<Rightarrow> error + 'a) \<Rightarrow> nat list \<Rightarrow> error + 'a list" where
  "mapLevels f [] = Inr []"
| "mapLevels f (level # levels) =
     (case f level of
        Inl e \<Rightarrow> Inl e
      | Inr x \<Rightarrow> (case mapLevels f levels of Inl e \<Rightarrow> Inl e | Inr xs \<Rightarrow> Inr (x # xs)))"

definition calculateConfidenceIntervals ::
  "int \<Rightarrow> nat list \<Rightarrow> nat list \<Rightarrow> error + confidenceInterval list" where
  "calculateConfidenceIntervals today simulationResults confidenceLevels =
     (let sortedResults = sort simulationResults
      in mapLevels (intervalOfLevel today sortedResults) confidenceLevels)"

subsection \<open>Local time, and one clock reading per level\<close>

text \<open>
  The functions above fix two things that the source leaves to its environment, and the
  forecast call below uses them in that form: the local zone is UTC, and every callback
  reads the same clock value. The functions of this subsection fix neither.

  \<^verbatim>\<open>getDate\<close> and \<^verbatim>\<open>setDate\<close> work in local time and \<^verbatim>\<open>toISOString\<close> prints UTC. A zone is the
  offset \<open>LocalTZA(t, isUTC)\<close> of the language definition, in milliseconds: the offset of
  local time at the time value \<open>t\<close>, which is a UTC time value when \<open>isUTC\<close> holds and a
  local one otherwise. \<^verbatim>\<open>setDate(today.getDate() + daysToAdd)\<close> converts the time value to
  local time, moves the day, and converts back with the offset that holds at the new local
  time.
\<close>

type_synonym zone = "int \<Rightarrow> bool \<Rightarrow> int"

abbreviation utc :: zone where
  "utc \<equiv> \<lambda>t isUTC. 0"

definition setDateLocal :: "zone \<Rightarrow> int \<Rightarrow> int \<Rightarrow> int option" where
  "setDateLocal tza today daysToAdd =
     (let localNow = today + tza today True;
          localThen = localNow + daysToAdd * msPerDay;
          t = localThen - tza localThen False
      in if \<bar>t\<bar> \<le> maxTimeValue then Some t else None)"

definition intervalOfLevelAt ::
  "zone \<Rightarrow> int \<Rightarrow> nat list \<Rightarrow> nat \<Rightarrow> error + confidenceInterval" where
  "intervalOfLevelAt tza today sortedResults level =
     (let index = percentileIndex (length sortedResults) level
      in if 0 \<le> index \<and> index < int (length sortedResults)
         then let periodsRequired = sortedResults ! nat index;
                  daysToAdd = periodsRequired * 14
              in (case setDateLocal tza today (int daysToAdd) of
                    None \<Rightarrow> Inl RangeError
                  | Some completion \<Rightarrow>
                      Inr \<lparr>confidence = level, periodsRequired = periodsRequired,
                           daysRemaining = daysToAdd, completionDate = toISODate completion\<rparr>)
         else Inl RangeError)"

text \<open>
  \<^verbatim>\<open>new Date()\<close> stands inside the callback, so each level has a clock reading of its own:
  \<open>clockAt k\<close> is the time value read by the callback of the level at position \<open>k\<close> of the
  request.
\<close>

fun mapCallbacks :: "(nat \<Rightarrow> nat \<Rightarrow> error + 'a) \<Rightarrow> nat \<Rightarrow> nat list \<Rightarrow> error + 'a list" where
  "mapCallbacks f k [] = Inr []"
| "mapCallbacks f k (level # levels) =
     (case f k level of
        Inl e \<Rightarrow> Inl e
      | Inr x \<Rightarrow> (case mapCallbacks f (Suc k) levels of Inl e \<Rightarrow> Inl e | Inr xs \<Rightarrow> Inr (x # xs)))"

definition calculateConfidenceIntervalsAt ::
  "zone \<Rightarrow> (nat \<Rightarrow> int) \<Rightarrow> nat list \<Rightarrow> nat list \<Rightarrow> error + confidenceInterval list" where
  "calculateConfidenceIntervalsAt tza clockAt simulationResults confidenceLevels =
     (let sortedResults = sort simulationResults
      in mapCallbacks (\<lambda>k level. intervalOfLevelAt tza (clockAt k) sortedResults level)
           0 confidenceLevels)"

subsection \<open>Summary statistics\<close>

definition arrayGet :: "nat list \<Rightarrow> int \<Rightarrow> jsnum" where
  "arrayGet xs i = (if 0 \<le> i \<and> i < int (length xs) then Finite (real (xs ! nat i)) else NaN)"

definition calculateMean :: "nat list \<Rightarrow> jsnum" where
  "calculateMean array =
     js_div (foldl (\<lambda>sum v. js_add sum (Finite (real v))) (Finite 0) array)
            (Finite (real (length array)))"

definition calculateMedian :: "nat list \<Rightarrow> jsnum" where
  "calculateMedian array =
     (let sortedArray = sort array;
          middle = int (length sortedArray div 2)
      in if length sortedArray mod 2 = 0
         then js_div (js_add (arrayGet sortedArray (middle - 1)) (arrayGet sortedArray middle)) (Finite 2)
         else arrayGet sortedArray middle)"

definition calculateStandardDeviation :: "nat list \<Rightarrow> jsnum" where
  "calculateStandardDeviation array =
     (let m = calculateMean array;
          variance =
            js_div (foldl (\<lambda>sum v. let diff = js_sub (Finite (real v)) m
                                   in js_add sum (js_mul diff diff))
                          (Finite 0) array)
                   (Finite (real (length array)))
      in Math_sqrt variance)"

section \<open>The forecast call\<close>

text \<open>
  What \<^verbatim>\<open>monteCarlo\<close> reads from outside its arguments: the two Jira responses (by project
  key; the requests are taken to succeed), the wall clock and the random sequence. In the
  summary, \<open>summaryMean\<close> is the key \<^verbatim>\<open>mean\<close>.
\<close>

record boardsData =
  boardValues :: "nat list option"

record world =
  searchResponse :: "string \<Rightarrow> issuesData option"
  boardResponse :: "string \<Rightarrow> boardsData"
  clock :: int
  random :: rng

record request =
  projectKey :: string
  iterations :: nat
  confidenceLevels :: "nat list"
  simulationParams :: simulationParams

record summary =
  summaryMean :: jsnum
  median :: jsnum
  standardDeviation :: jsnum

text \<open>The returned object; \<open>resultIterations\<close> is its key \<^verbatim>\<open>iterations\<close>.\<close>

record forecastResult =
  resultIterations :: nat
  confidenceIntervals :: "confidenceInterval list"
  simulationSummary :: summary

definition fetchProjectIssues :: "world \<Rightarrow> string \<Rightarrow> issuesData option" where
  "fetchProjectIssues w key = searchResponse w key"

text \<open>The two records \<^verbatim>\<open>fetchHistoricalVelocity\<close> can return; the mean 20.5 is written \<open>41 / 2\<close>.\<close>

abbreviation mockVelocity :: velocityData where
  "mockVelocity \<equiv> \<lparr>velocities = [21, 18, 23, 19, 22, 20], mean = 41 / 2, stdDev = 187 / 100\<rparr>"

abbreviation emptyVelocity :: velocityData where
  "emptyVelocity \<equiv> \<lparr>velocities = [], mean = 0, stdDev = 0\<rparr>"

text \<open>
  \<^verbatim>\<open>boardsData.values && boardsData.values.length > 0\<close> selects between the fixed velocity
  record and the empty one; the sprint response is fetched and not used.
\<close>

definition fetchHistoricalVelocity :: "world \<Rightarrow> string \<Rightarrow> nat \<Rightarrow> velocityData" where
  "fetchHistoricalVelocity w key count =
     (case boardValues (boardResponse w key) of
        Some (boardId # rest) \<Rightarrow> mockVelocity
      | _ \<Rightarrow> emptyVelocity)"

text \<open>\<open>None\<close>: the call never returns. \<open>Some (Inl e)\<close>: it throws \<open>e\<close>.\<close>

definition monteCarlo :: "world \<Rightarrow> request \<Rightarrow> (error + forecastResult) option" where
  "monteCarlo w req =
     (let issuesData = fetchProjectIssues w (projectKey req);
          velocityData = fetchHistoricalVelocity w (projectKey req) (periodCount (simulationParams req))
      in case runMonteCarloSimulation issuesData velocityData (iterations req)
                (simulationParams req) (random w) of
           None \<Rightarrow> None
         | Some (simulationResults, r') \<Rightarrow>
             (case calculateConfidenceIntervals (clock w) simulationResults (confidenceLevels req) of
                Inl e \<Rightarrow> Some (Inl e)
              | Inr intervals \<Rightarrow>
                  Some (Inr \<lparr>resultIterations = iterations req,
                             confidenceIntervals = intervals,
                             simulationSummary =
                               \<lparr>summaryMean = calculateMean simulationResults,
                                median = calculateMedian simulationResults,
                                standardDeviation = calculateStandardDeviation simulationResults\<rparr>\<rparr>)))"

section \<open>Arrays in a store\<close>

text \<open>
  Whether a function changes the array it is given depends on which array \<^verbatim>\<open>sort\<close> works on.
  Here arrays live in a store and are named by their address; \<^verbatim>\<open>[...a]\<close> allocates a new
  array holding a copy, \<^verbatim>\<open>sort\<close> overwrites the array at the address it is called on.
\<close>

type_synonym store = "nat list list"

definition spread :: "store \<Rightarrow> nat \<Rightarrow> store \<times> nat" where
  "spread h a = (h @ [h ! a], length h)"

definition sortInPlace :: "store \<Rightarrow> nat \<Rightarrow> store" where
  "sortInPlace h a = h[a := sort (h ! a)]"

definition calculateConfidenceIntervals_store ::
  "int \<Rightarrow> store \<Rightarrow> nat \<Rightarrow> nat list \<Rightarrow> store \<times> (error + confidenceInterval list)" where
  "calculateConfidenceIntervals_store today h simulationResults levels =
     (case spread h simulationResults of (h1, copy) \<Rightarrow>
        let h2 = sortInPlace h1 copy;
            sortedResults = copy
        in (h2, mapLevels (intervalOfLevel today (h2 ! sortedResults)) levels))"

definition calculateMedian_store :: "store \<Rightarrow> nat \<Rightarrow> store \<times> jsnum" where
  "calculateMedian_store h array =
     (case spread h array of (h1, copy) \<Rightarrow>
        let h2 = sortInPlace h1 copy;
            sortedArray = h2 ! copy;
            middle = int (length sortedArray div 2)
        in (h2, if length sortedArray mod 2 = 0
                then js_div (js_add (arrayGet sortedArray (middle - 1)) (arrayGet sortedArray middle)) (Finite 2)
                else arrayGet sortedArray middle))"

section \<open>Example inputs\<close>

text \<open>
  A Jira project with one open issue of the given story points and the given boards, a
  forecast request, and two random sequences: one that never triggers a blocker, and one
  that triggers a blocker of impact 0.4 at the draw \<open>k\<close>. In both the second draw of every
  sample is \<open>1/4\<close>, where the cosine of the Box-Muller transform vanishes and the sampled
  velocity is the rounded mean.
\<close>

abbreviation jira :: "real \<Rightarrow> nat list \<Rightarrow> int \<Rightarrow> rng \<Rightarrow> world" where
  "jira points boards t r \<equiv>
     \<lparr>searchResponse = \<lambda>key. Some \<lparr>issues = Some [\<lparr>customfield_10016 = Some points\<rparr>]\<rparr>,
      boardResponse = \<lambda>key. \<lparr>boardValues = Some boards\<rparr>,
      clock = t, random = r\<rparr>"

abbreviation forecastRequest :: "nat \<Rightarrow> nat list \<Rightarrow> bool \<Rightarrow> request" where
  "forecastRequest n levels blockers \<equiv>
     \<lparr>projectKey = ''P'', iterations = n, confidenceLevels = levels,
      simulationParams = \<lparr>useHistoricalVelocity = True, periodCount = 6, includeBlockers = blockers\<rparr>\<rparr>"

text \<open>
  New York around the start of daylight saving time in 2024: five hours behind UTC until
  2024-03-10T07:00Z, four hours after it; a local time in the skipped hour counts with
  the earlier offset. And a clock that passes midnight between the first callback and the
  second.
\<close>

abbreviation newYorkSpring2024 :: zone where
  "newYorkSpring2024 \<equiv> \<lambda>t isUTC.
     if isUTC then (if t < 1710054000000 then - 18000000 else - 14400000)
     else (if t < 1710039600000 then - 18000000 else - 14400000)"

abbreviation pastMidnight :: "nat \<Rightarrow> int" where
  "pastMidnight \<equiv> \<lambda>k. if k = 0 then 86399999 else 86400000"

abbreviation steady :: rng where
  "steady \<equiv> \<lambda>n. 1 / 4"

abbreviation blockerAt :: "nat \<Rightarrow> rng" where
  "blockerAt k \<equiv> \<lambda>n. if n = k then 1 / 10 else if n = Suc k then 1 / 2 else 1 / 4"

section \<open>Properties of the double rounding\<close>

lemma roundHalfEven_le: "of_int (roundHalfEven x) \<le> x + 1 / 2"
  unfolding roundHalfEven_def Let_def by (auto; linarith)

lemma roundHalfEven_ge: "x - 1 / 2 \<le> of_int (roundHalfEven x)"
  unfolding roundHalfEven_def Let_def by (auto; linarith)

lemma roundHalfEven_of_int [simp]: "roundHalfEven (of_int n) = n"
  unfolding roundHalfEven_def Let_def by simp

lemma roundHalfEven_mono:
  assumes "x \<le> y"
  shows "roundHalfEven x \<le> roundHalfEven y"
proof (cases "\<lfloor>x\<rfloor> = \<lfloor>y\<rfloor>")
  case True
  then show ?thesis
    using assms unfolding roundHalfEven_def Let_def by auto
next
  case False
  with assms have lt: "\<lfloor>x\<rfloor> + 1 \<le> \<lfloor>y\<rfloor>"
    using floor_mono [OF assms] by linarith
  have "roundHalfEven x \<le> \<lfloor>x\<rfloor> + 1"
    unfolding roundHalfEven_def Let_def by auto
  moreover have "\<lfloor>y\<rfloor> \<le> roundHalfEven y"
    unfolding roundHalfEven_def Let_def by auto
  ultimately show ?thesis using lt by linarith
qed

text \<open>
  The bit lengths of numerator and denominator place a positive rational between two
  neighbouring powers of two, and \<open>binaryExponent\<close> picks the right one.
\<close>

lemma bitlen_powi_bounds:
  assumes "0 < a"
  shows "(2::rat) powi (bitlen a - 1) \<le> of_int a" and "of_int a < (2::rat) powi (bitlen a)"
proof -
  have la: "1 \<le> bitlen a"
    using assms bitlen_eq_zero_iff [of a] bitlen_nonneg [of a] by linarith
  have "(2::int) ^ nat (bitlen a - 1) \<le> a" using bitlen_bounds [OF assms] by simp
  then have "(of_int ((2::int) ^ nat (bitlen a - 1)) :: rat) \<le> of_int a"
    by (simp only: of_int_le_iff)
  then show "(2::rat) powi (bitlen a - 1) \<le> of_int a"
    using la by (simp add: power_int_def)
  have "a < (2::int) ^ nat (bitlen a)" using bitlen_bounds [OF assms] by simp
  then have "(of_int a :: rat) < of_int ((2::int) ^ nat (bitlen a))"
    by (simp only: of_int_less_iff)
  then show "of_int a < (2::rat) powi (bitlen a)"
    using la by (simp add: power_int_def)
qed

lemma binaryExponent_bounds:
  assumes "0 < x"
  shows "2 powi (binaryExponent x) \<le> x" and "x < 2 powi (binaryExponent x + 1)"
proof -
  obtain a b where q: "quotient_of x = (a, b)" by (cases "quotient_of x")
  have b: "0 < b" using quotient_of_denom_pos [OF q] .
  have x: "x = of_int a / of_int b" using quotient_of_div [OF q] .
  have a: "0 < a" using assms b unfolding x by (simp add: zero_less_divide_iff)
  define d where "d = bitlen a - bitlen b"
  note a1 = bitlen_powi_bounds(1) [OF a] and a2 = bitlen_powi_bounds(2) [OF a]
  note b1 = bitlen_powi_bounds(1) [OF b] and b2 = bitlen_powi_bounds(2) [OF b]
  have bpos: "(0::rat) < of_int b" using b by simp
  have lo: "2 powi (d - 1) \<le> x"
  proof -
    have "(2::rat) powi (d - 1) * of_int b \<le> 2 powi (d - 1) * 2 powi (bitlen b)"
      using b2 by (intro mult_left_mono) auto
    also have "\<dots> = 2 powi (bitlen a - 1)"
      unfolding d_def by (simp add: power_int_add [symmetric])
    also have "\<dots> \<le> of_int a" by (rule a1)
    finally show ?thesis unfolding x using bpos by (simp add: pos_le_divide_eq)
  qed
  have hi: "x < 2 powi (d + 1)"
  proof -
    have "of_int a < (2::rat) powi (bitlen a)" by (rule a2)
    also have "\<dots> = 2 powi (d + 1) * 2 powi (bitlen b - 1)"
      unfolding d_def by (simp add: power_int_add [symmetric])
    also have "\<dots> \<le> 2 powi (d + 1) * of_int b"
      using b1 by (intro mult_left_mono) auto
    finally show ?thesis unfolding x using bpos by (simp add: pos_divide_less_eq)
  qed
  have e: "binaryExponent x = (if 2 powi d \<le> x then d else d - 1)"
    unfolding binaryExponent_def q d_def by (simp add: Let_def)
  show "2 powi (binaryExponent x) \<le> x"
    using lo unfolding e by auto
  show "x < 2 powi (binaryExponent x + 1)"
    using hi unfolding e by (auto simp: not_le)
qed

lemma binaryExponent_mono:
  assumes "0 < x" "x \<le> y"
  shows "binaryExponent x \<le> binaryExponent y"
proof (rule ccontr)
  assume "\<not> ?thesis"
  then have "binaryExponent y + 1 \<le> binaryExponent x" by simp
  then have "(2::rat) powi (binaryExponent y + 1) \<le> 2 powi (binaryExponent x)"
    by (intro power_int_increasing) auto
  moreover have "y < 2 powi (binaryExponent y + 1)"
    using binaryExponent_bounds(2) [of y] assms by simp
  moreover have "2 powi (binaryExponent x) \<le> x"
    using binaryExponent_bounds(1) [OF assms(1)] .
  ultimately show False using assms(2) by linarith
qed

lemma pow2_shift: "(2::rat) ^ k * 2 powi (e - int k) = 2 powi e"
proof -
  have "(2::rat) ^ k * 2 powi (e - int k) = 2 powi (int k) * 2 powi (e - int k)"
    by (simp only: power_int_of_nat)
  also have "\<dots> = 2 powi (int k + (e - int k))"
    by (rule power_int_add [symmetric]) simp
  finally show ?thesis by simp
qed

lemma toDouble_pos_eq:
  assumes "0 < x"
  shows "toDouble x =
    of_int (roundHalfEven (x / 2 powi (binaryExponent x - 52))) * 2 powi (binaryExponent x - 52)"
  using assms by (simp add: toDouble_def Let_def)

text \<open>The significand of a positive number lies in \<open>[2\<^sup>5\<^sup>2, 2\<^sup>5\<^sup>3)\<close> before it is rounded.\<close>

lemma scaled_bounds:
  assumes "0 < x"
  shows "4503599627370496 \<le> x / 2 powi (binaryExponent x - 52)"
    and "x / 2 powi (binaryExponent x - 52) < 9007199254740992"
proof -
  let ?e = "binaryExponent x"
  have u: "(0::rat) < 2 powi (?e - 52)" by simp
  have e1: "(4503599627370496::rat) * 2 powi (?e - 52) = 2 powi ?e"
    using pow2_shift [of 52 ?e] by simp
  have e2: "(9007199254740992::rat) * 2 powi (?e - 52) = 2 powi (?e + 1)"
    using pow2_shift [of 53 "?e + 1"] by simp
  have "4503599627370496 * 2 powi (?e - 52) \<le> x"
    using binaryExponent_bounds(1) [OF assms] unfolding e1 .
  then show "4503599627370496 \<le> x / 2 powi (?e - 52)"
    using u by (simp only: pos_le_divide_eq)
  have "x < 9007199254740992 * 2 powi (?e - 52)"
    using binaryExponent_bounds(2) [OF assms] unfolding e2 .
  then show "x / 2 powi (?e - 52) < 9007199254740992"
    using u by (simp only: pos_divide_less_eq)
qed

lemma toDouble_pos:
  assumes "0 < x"
  shows "0 < toDouble x"
proof -
  let ?s = "x / 2 powi (binaryExponent x - 52)"
  have "(0::rat) < ?s - 1 / 2" using scaled_bounds(1) [OF assms] by linarith
  also have "\<dots> \<le> of_int (roundHalfEven ?s)" by (rule roundHalfEven_ge)
  finally have "(0::rat) < of_int (roundHalfEven ?s)" .
  then show ?thesis unfolding toDouble_pos_eq [OF assms] by (intro mult_pos_pos) auto
qed

lemma toDouble_nonneg:
  assumes "0 \<le> x"
  shows "0 \<le> toDouble x"
proof (cases "x = 0")
  case True
  then show ?thesis by (simp add: toDouble_def)
next
  case False
  with assms have "0 < x" by simp
  then show ?thesis using toDouble_pos [of x] by simp
qed

text \<open>Rounding moves a positive number up by at most the relative error \<open>2\<^sup>-\<^sup>5\<^sup>3\<close>.\<close>

lemma toDouble_upper:
  assumes "0 < x"
  shows "toDouble x \<le> x * (1 + 1 / 9007199254740992)"
proof -
  let ?u = "(2::rat) powi (binaryExponent x - 52)"
  let ?s = "x / ?u"
  have u: "0 < ?u" by simp
  have "of_int (roundHalfEven ?s) \<le> ?s + 1 / 2" by (rule roundHalfEven_le)
  also have "\<dots> \<le> ?s + ?s / 9007199254740992"
  proof -
    define s where "s = ?s"
    have "4503599627370496 \<le> s" unfolding s_def by (rule scaled_bounds(1) [OF assms])
    then have "s + 1 / 2 \<le> s + s / 9007199254740992" by linarith
    then show ?thesis unfolding s_def .
  qed
  also have "\<dots> = ?s * (1 + 1 / 9007199254740992)"
    by (simp add: algebra_simps)
  finally have "of_int (roundHalfEven ?s) * ?u \<le> (?s * (1 + 1 / 9007199254740992)) * ?u"
    using u by (intro mult_right_mono) auto
  also have "\<dots> = (?s * ?u) * (1 + 1 / 9007199254740992)"
    by (simp only: mult_ac)
  also have "?s * ?u = x" using u by simp
  finally show ?thesis unfolding toDouble_pos_eq [OF assms] .
qed

lemma toDouble_mono:
  assumes "0 \<le> x" "x \<le> y"
  shows "toDouble x \<le> toDouble y"
proof (cases "x = 0")
  case True
  then show ?thesis using toDouble_nonneg [of y] assms by (simp add: toDouble_def)
next
  case False
  with assms have x: "0 < x" and y: "0 < y" by simp_all
  let ?ex = "binaryExponent x" and ?ey = "binaryExponent y"
  have le: "?ex \<le> ?ey" by (rule binaryExponent_mono [OF x assms(2)])
  show ?thesis
  proof (cases "?ex = ?ey")
    case True
    have "x / 2 powi (?ey - 52) \<le> y / 2 powi (?ey - 52)"
      using assms(2) by (simp add: divide_right_mono)
    then have "roundHalfEven (x / 2 powi (?ey - 52)) \<le> roundHalfEven (y / 2 powi (?ey - 52))"
      by (rule roundHalfEven_mono)
    then have "(of_int (roundHalfEven (x / 2 powi (?ey - 52))) :: rat) * 2 powi (?ey - 52)
        \<le> of_int (roundHalfEven (y / 2 powi (?ey - 52))) * 2 powi (?ey - 52)"
      by (intro mult_right_mono) auto
    then show ?thesis unfolding toDouble_pos_eq [OF x] toDouble_pos_eq [OF y] True .
  next
    case False
    with le have lt: "?ex + 1 \<le> ?ey" by simp
    have "x / 2 powi (?ex - 52) \<le> of_int 9007199254740992"
      using scaled_bounds(2) [OF x] by simp
    then have "roundHalfEven (x / 2 powi (?ex - 52)) \<le> roundHalfEven (of_int 9007199254740992)"
      by (rule roundHalfEven_mono)
    then have "roundHalfEven (x / 2 powi (?ex - 52)) \<le> 9007199254740992"
      by (simp only: roundHalfEven_of_int)
    then have "(of_int (roundHalfEven (x / 2 powi (?ex - 52))) :: rat) \<le> 9007199254740992"
      by linarith
    then have "toDouble x \<le> 9007199254740992 * 2 powi (?ex - 52)"
      unfolding toDouble_pos_eq [OF x] by (intro mult_right_mono) auto
    also have "\<dots> = 2 powi (?ex + 1)"
      using pow2_shift [of 53 "?ex + 1"] by simp
    also have "\<dots> \<le> 2 powi ?ey"
      using lt by (intro power_int_increasing) auto
    also have "\<dots> = 4503599627370496 * 2 powi (?ey - 52)"
      using pow2_shift [of 52 ?ey] by simp
    also have "\<dots> \<le> toDouble y"
    proof -
      have "of_int 4503599627370496 \<le> y / 2 powi (?ey - 52)"
        using scaled_bounds(1) [OF y] by simp
      then have "roundHalfEven (of_int 4503599627370496) \<le> roundHalfEven (y / 2 powi (?ey - 52))"
        by (rule roundHalfEven_mono)
      then have "4503599627370496 \<le> roundHalfEven (y / 2 powi (?ey - 52))"
        by (simp only: roundHalfEven_of_int)
      then have "(4503599627370496 :: rat) \<le> of_int (roundHalfEven (y / 2 powi (?ey - 52)))"
        by linarith
      then show ?thesis
        unfolding toDouble_pos_eq [OF y] by (intro mult_right_mono) auto
    qed
    finally show ?thesis .
  qed
qed

text \<open>The index the reducer computes: never negative, monotone in the confidence level,
  and inside a non-empty array for every level below 100.\<close>

lemma percentileIndex_nonneg: "0 \<le> percentileIndex n level"
  unfolding percentileIndex_def
  by (intro zero_le_floor [THEN iffD2] toDouble_nonneg mult_nonneg_nonneg) auto

lemma percentileIndex_mono:
  assumes "p1 \<le> p2"
  shows "percentileIndex n p1 \<le> percentileIndex n p2"
proof -
  have "toDouble (of_nat p1 / 100) \<le> toDouble (of_nat p2 / 100)"
    using assms by (intro toDouble_mono) (auto simp: divide_right_mono)
  then have "of_nat n * toDouble (of_nat p1 / 100) \<le> of_nat n * toDouble (of_nat p2 / 100)"
    by (intro mult_left_mono) auto
  moreover have "0 \<le> of_nat n * toDouble (of_nat p1 / 100)"
    by (intro mult_nonneg_nonneg toDouble_nonneg) auto
  ultimately show ?thesis
    unfolding percentileIndex_def by (intro floor_mono toDouble_mono)
qed

lemma percentileIndex_less:
  assumes "0 < n" "level < 100"
  shows "percentileIndex n level < int n"
proof (cases "level = 0")
  case True
  then show ?thesis using assms by (simp add: percentileIndex_def toDouble_def)
next
  case False
  let ?c = "1 + 1 / (9007199254740992::rat)"
  let ?q = "toDouble (of_nat level / 100)"
  let ?x = "of_nat n * ?q"
  have lv: "(0::rat) < of_nat level / 100" using False by simp
  have "level \<le> 99" using assms(2) by simp
  then have "(of_nat level :: rat) \<le> of_nat 99" by (simp only: of_nat_le_iff)
  then have q99: "of_nat level / 100 \<le> (99 / 100 :: rat)" by simp
  have "?q \<le> (of_nat level / 100) * ?c" by (rule toDouble_upper [OF lv])
  also have "\<dots> \<le> (99 / 100) * ?c"
    using q99 by (intro mult_right_mono) auto
  finally have qb: "?q \<le> (99 / 100) * ?c" .
  have qpos: "0 < ?q" by (rule toDouble_pos [OF lv])
  have xpos: "0 < ?x" using assms(1) qpos by simp
  have "toDouble ?x \<le> ?x * ?c" by (rule toDouble_upper [OF xpos])
  also have "\<dots> = of_nat n * (?q * ?c)" by (simp only: mult.assoc)
  also have "\<dots> \<le> of_nat n * (((99 / 100) * ?c) * ?c)"
    using qb by (intro mult_left_mono mult_right_mono) auto
  also have "\<dots> < of_nat n * 1"
    using assms(1) by (intro mult_strict_left_mono) auto
  finally have "toDouble ?x < of_int (int n)" by simp
  then show ?thesis unfolding percentileIndex_def by (simp only: floor_less_iff)
qed

section \<open>Properties of the percentile reducer\<close>

lemma mapLevels_Inr:
  "mapLevels f levels = Inr xs \<Longrightarrow> list_all2 (\<lambda>l x. f l = Inr x) levels xs"
  by (induction levels arbitrary: xs) (auto split: sum.splits)

lemma mapLevels_all_Inr:
  "\<forall>l \<in> set levels. f l = Inr (g l) \<Longrightarrow> mapLevels f levels = Inr (map g levels)"
  by (induction levels) auto

text \<open>What an interval says when the callback returns one.\<close>

lemma intervalOfLevel_Inr:
  assumes "intervalOfLevel today sortedResults level = Inr c"
  shows "confidence c = level"
    and "percentileIndex (length sortedResults) level < int (length sortedResults)"
    and "periodsRequired c = sortedResults ! nat (percentileIndex (length sortedResults) level)"
    and "daysRemaining c = periodsRequired c * 14"
    and "completionDate c = toISODate today + int (periodsRequired c) * 14"
  using assms
  by (auto simp: intervalOfLevel_def Let_def setDate_def toISODate_def msPerDay_def
           split: if_splits option.splits)

text \<open>The reported value is an element of the trial results, never an interpolation.\<close>

lemma periodsRequired_in_results:
  assumes "intervalOfLevel today (sort results) level = Inr c"
  shows "periodsRequired c \<in> set results"
proof -
  let ?i = "nat (percentileIndex (length (sort results)) level)"
  have "percentileIndex (length (sort results)) level < int (length (sort results))"
    by (rule intervalOfLevel_Inr(2) [OF assms])
  then have "?i < length (sort results)"
    using percentileIndex_nonneg [of "length (sort results)" level] by linarith
  then have "sort results ! ?i \<in> set (sort results)" by (rule nth_mem)
  then show ?thesis using intervalOfLevel_Inr(3) [OF assms] by simp
qed

subsection \<open>With any zone and a clock reading per level\<close>

text \<open>
  The functions used in the forecast call are the general ones at the zone UTC and a
  clock that stands still.
\<close>

lemma setDateLocal_utc: "setDateLocal utc today n = setDate today n"
  by (simp add: setDateLocal_def setDate_def)

lemma intervalOfLevelAt_utc: "intervalOfLevelAt utc today s level = intervalOfLevel today s level"
  by (simp add: intervalOfLevelAt_def intervalOfLevel_def setDateLocal_utc Let_def)

lemma mapCallbacks_const: "mapCallbacks (\<lambda>k. f) k levels = mapLevels f levels"
  by (induction levels arbitrary: k) (simp_all cong: sum.case_cong)

lemma calculateConfidenceIntervals_instance:
  "calculateConfidenceIntervals today results levels
     = calculateConfidenceIntervalsAt utc (\<lambda>k. today) results levels"
  by (simp add: calculateConfidenceIntervals_def calculateConfidenceIntervalsAt_def
      intervalOfLevelAt_utc mapCallbacks_const)

text \<open>What the general reducer returns, position by position.\<close>

lemma mapCallbacks_Inr:
  "mapCallbacks f k levels = Inr xs \<Longrightarrow>
   length xs = length levels \<and> (\<forall>i < length levels. f (k + i) (levels ! i) = Inr (xs ! i))"
proof (induction levels arbitrary: k xs)
  case Nil
  then show ?case by simp
next
  case (Cons level levels)
  from Cons.prems obtain x ys where x: "f k level = Inr x"
    and ys: "mapCallbacks f (Suc k) levels = Inr ys" and xs: "xs = x # ys"
    by (auto split: sum.splits)
  have ih: "length ys = length levels \<and> (\<forall>i < length levels. f (Suc k + i) (levels ! i) = Inr (ys ! i))"
    by (rule Cons.IH [OF ys])
  show ?case
  proof (intro conjI allI impI)
    show "length xs = length (level # levels)" using ih xs by simp
  next
    fix i assume "i < length (level # levels)"
    then show "f (k + i) ((level # levels) ! i) = Inr (xs ! i)"
      using ih x xs by (cases i) auto
  qed
qed

lemma mapCallbacks_returns:
  "\<forall>i < length levels. \<exists>x. f (k + i) (levels ! i) = Inr x \<Longrightarrow>
   \<exists>xs. mapCallbacks f k levels = Inr xs"
proof (induction levels arbitrary: k)
  case Nil
  then show ?case by simp
next
  case (Cons level levels)
  from Cons.prems [rule_format, of 0] obtain x where x: "f k level = Inr x" by auto
  have "\<forall>i < length levels. \<exists>x. f (Suc k + i) (levels ! i) = Inr x"
  proof (intro allI impI)
    fix i assume "i < length levels"
    then show "\<exists>x. f (Suc k + i) (levels ! i) = Inr x"
      using Cons.prems [rule_format, of "Suc i"] by simp
  qed
  from Cons.IH [OF this] obtain ys where "mapCallbacks f (Suc k) levels = Inr ys" by blast
  then show ?case using x by simp
qed

lemma intervalOfLevelAt_Inr:
  assumes "intervalOfLevelAt tza today sortedResults level = Inr c"
  shows "confidence c = level"
    and "percentileIndex (length sortedResults) level < int (length sortedResults)"
    and "periodsRequired c = sortedResults ! nat (percentileIndex (length sortedResults) level)"
    and "daysRemaining c = periodsRequired c * 14"
    and "completionDate c =
           toISODate (today + tza today True + int (periodsRequired c) * 14 * msPerDay
                      - tza (today + tza today True + int (periodsRequired c) * 14 * msPerDay) False)"
  using assms
  by (auto simp: intervalOfLevelAt_def Let_def setDateLocal_def
           split: if_splits option.splits)

lemma intervalsAt_nth:
  assumes "calculateConfidenceIntervalsAt tza clockAt results levels = Inr ivs"
  shows "length ivs = length levels"
    and "k < length ivs \<Longrightarrow>
         intervalOfLevelAt tza (clockAt k) (sort results) (levels ! k) = Inr (ivs ! k)"
  using mapCallbacks_Inr [OF assms [unfolded calculateConfidenceIntervalsAt_def Let_def]]
  by simp_all

lemma confidencesAt:
  assumes "calculateConfidenceIntervalsAt tza clockAt results levels = Inr ivs"
  shows "map confidence ivs = levels"
proof (rule nth_equalityI)
  show "length (map confidence ivs) = length levels"
    using intervalsAt_nth(1) [OF assms] by simp
next
  fix i assume "i < length (map confidence ivs)"
  then have i: "i < length ivs" by simp
  show "map confidence ivs ! i = levels ! i"
    using intervalOfLevelAt_Inr(1) [OF intervalsAt_nth(2) [OF assms i]] i by simp
qed

text \<open>
  The double-rounded index is monotone in the level and the copy is sorted, so the reported
  periods are monotone in the level, whatever the clock and the zone.
\<close>

lemma intervalOfLevelAt_mono:
  assumes a: "intervalOfLevelAt tza t1 (sort results) l1 = Inr c1"
    and b: "intervalOfLevelAt tza t2 (sort results) l2 = Inr c2"
    and le: "l1 \<le> l2"
  shows "periodsRequired c1 \<le> periodsRequired c2"
proof -
  let ?s = "sort results"
  let ?i = "percentileIndex (length ?s) l1" and ?j = "percentileIndex (length ?s) l2"
  have ij: "?i \<le> ?j" by (rule percentileIndex_mono [OF le])
  have i0: "0 \<le> ?i" by (rule percentileIndex_nonneg)
  have j: "?j < int (length ?s)" by (rule intervalOfLevelAt_Inr(2) [OF b])
  have "?s ! nat ?i \<le> ?s ! nat ?j"
    using ij i0 j by (intro sorted_nth_mono) auto
  then show ?thesis
    unfolding intervalOfLevelAt_Inr(3) [OF a] intervalOfLevelAt_Inr(3) [OF b] .
qed

text \<open>
  On a non-empty array, with levels below 100 and dates that stay valid, the reducer
  returns: the index is inside the array without any clamping.
\<close>

lemma intervalOfLevelAt_returns:
  assumes "results \<noteq> []" "level < 100"
    and "\<forall>x \<in> set results. setDateLocal tza today (int (x * 14)) \<noteq> None"
  shows "\<exists>c. intervalOfLevelAt tza today (sort results) level = Inr c"
proof -
  let ?s = "sort results"
  let ?i = "percentileIndex (length ?s) level"
  have n: "0 < length ?s" using assms(1) by simp
  have i: "?i < int (length ?s)" by (rule percentileIndex_less [OF n assms(2)])
  have i0: "0 \<le> ?i" by (rule percentileIndex_nonneg)
  have "nat ?i < length ?s" using i i0 by linarith
  then have "?s ! nat ?i \<in> set ?s" by (rule nth_mem)
  then have "setDateLocal tza today (int (?s ! nat ?i * 14)) \<noteq> None"
    using assms(3) by simp
  then show ?thesis
    using i i0 by (auto simp: intervalOfLevelAt_def Let_def)
qed

lemma calculateConfidenceIntervalsAt_returns:
  assumes "results \<noteq> []" "\<forall>p \<in> set levels. p < 100"
    and "\<forall>k < length levels. \<forall>x \<in> set results. setDateLocal tza (clockAt k) (int (x * 14)) \<noteq> None"
  shows "\<exists>ivs. calculateConfidenceIntervalsAt tza clockAt results levels = Inr ivs"
  unfolding calculateConfidenceIntervalsAt_def Let_def
proof (rule mapCallbacks_returns, intro allI impI)
  fix i assume i: "i < length levels"
  then have "levels ! i < 100" using assms(2) by simp
  moreover have "\<forall>x \<in> set results. setDateLocal tza (clockAt (0 + i)) (int (x * 14)) \<noteq> None"
    using assms(3) i by simp
  ultimately show "\<exists>x. intervalOfLevelAt tza (clockAt (0 + i)) (sort results) (levels ! i) = Inr x"
    by (rule intervalOfLevelAt_returns [OF assms(1)])
qed

text \<open>
  From one local time, more days lead to a later or equal UTC date as long as the offsets
  of the zone differ by less than a day.
\<close>

lemma completion_mono:
  assumes z: "\<forall>x y. \<bar>tza x False - tza y False\<bar> < msPerDay"
    and n: "(n1::nat) \<le> n2"
  shows "toISODate (l + int n1 * 14 * msPerDay - tza (l + int n1 * 14 * msPerDay) False)
       \<le> toISODate (l + int n2 * 14 * msPerDay - tza (l + int n2 * 14 * msPerDay) False)"
proof (cases "n1 = n2")
  case True
  then show ?thesis by simp
next
  case False
  with n have "int n1 + 1 \<le> int n2" by simp
  then have "(int n1 + 1) * (14 * msPerDay) \<le> int n2 * (14 * msPerDay)"
    by (intro mult_right_mono) (simp_all add: msPerDay_def)
  then have d: "int n1 * 14 * msPerDay + 14 * msPerDay \<le> int n2 * 14 * msPerDay"
    by (simp add: algebra_simps)
  have "\<bar>tza (l + int n2 * 14 * msPerDay) False - tza (l + int n1 * 14 * msPerDay) False\<bar> < msPerDay"
    using z by blast
  moreover have "0 < msPerDay" by (simp add: msPerDay_def)
  ultimately have "l + int n1 * 14 * msPerDay - tza (l + int n1 * 14 * msPerDay) False
       \<le> l + int n2 * 14 * msPerDay - tza (l + int n2 * 14 * msPerDay) False"
    using d by linarith
  then show ?thesis
    unfolding toISODate_def by (intro zdiv_mono1) (simp_all add: msPerDay_def)
qed

text \<open>
  Claim C4, as the code has it. On a non-empty array of trial results, with levels below
  100 and dates that stay valid, the reducer returns. Whenever it returns, the intervals
  stand in the order in which the levels were requested: the code maps over the request and
  does not sort it. Two intervals with confidence levels \<open>p1 < p2\<close> report periods and
  remaining days in the same order, whatever the clock and the zone; their completion
  dates are in that order when both callbacks read the same clock value and the offsets of
  the zone differ by less than a day.
\<close>

theorem C4_percentiles_monotone:
  "(results \<noteq> [] \<and> (\<forall>p \<in> set levels. p < 100)
      \<and> (\<forall>k < length levels. \<forall>x \<in> set results.
            setDateLocal tza (clockAt k) (int (x * 14)) \<noteq> None)
    \<longrightarrow> (\<exists>ivs. calculateConfidenceIntervalsAt tza clockAt results levels = Inr ivs))
   \<and> (\<forall>ivs. calculateConfidenceIntervalsAt tza clockAt results levels = Inr ivs \<longrightarrow>
         map confidence ivs = levels
         \<and> (\<forall>i < length ivs. \<forall>j < length ivs. confidence (ivs ! i) < confidence (ivs ! j) \<longrightarrow>
              periodsRequired (ivs ! i) \<le> periodsRequired (ivs ! j)
              \<and> daysRemaining (ivs ! i) \<le> daysRemaining (ivs ! j)
              \<and> (clockAt i = clockAt j \<and> (\<forall>x y. \<bar>tza x False - tza y False\<bar> < msPerDay)
                   \<longrightarrow> completionDate (ivs ! i) \<le> completionDate (ivs ! j))))"
proof -
  have ret: "\<exists>ivs. calculateConfidenceIntervalsAt tza clockAt results levels = Inr ivs"
    if "results \<noteq> []" "\<forall>p \<in> set levels. p < 100"
      "\<forall>k < length levels. \<forall>x \<in> set results. setDateLocal tza (clockAt k) (int (x * 14)) \<noteq> None"
    using that by (rule calculateConfidenceIntervalsAt_returns)
  have conf: "map confidence ivs = levels"
    if "calculateConfidenceIntervalsAt tza clockAt results levels = Inr ivs" for ivs
    using that by (rule confidencesAt)
  have mono: "periodsRequired (ivs ! i) \<le> periodsRequired (ivs ! j)
              \<and> daysRemaining (ivs ! i) \<le> daysRemaining (ivs ! j)
              \<and> (clockAt i = clockAt j \<and> (\<forall>x y. \<bar>tza x False - tza y False\<bar> < msPerDay)
                   \<longrightarrow> completionDate (ivs ! i) \<le> completionDate (ivs ! j))"
    if r: "calculateConfidenceIntervalsAt tza clockAt results levels = Inr ivs"
      and ij: "i < length ivs" "j < length ivs" "confidence (ivs ! i) < confidence (ivs ! j)"
    for ivs i j
  proof -
    note a = intervalsAt_nth(2) [OF r ij(1)] and b = intervalsAt_nth(2) [OF r ij(2)]
    have "levels ! i \<le> levels ! j"
      using ij(3) intervalOfLevelAt_Inr(1) [OF a] intervalOfLevelAt_Inr(1) [OF b] by simp
    then have p: "periodsRequired (ivs ! i) \<le> periodsRequired (ivs ! j)"
      by (rule intervalOfLevelAt_mono [OF a b])
    then have d: "daysRemaining (ivs ! i) \<le> daysRemaining (ivs ! j)"
      unfolding intervalOfLevelAt_Inr(4) [OF a] intervalOfLevelAt_Inr(4) [OF b] by simp
    have c: "completionDate (ivs ! i) \<le> completionDate (ivs ! j)"
      if same: "clockAt i = clockAt j" and z: "\<forall>x y. \<bar>tza x False - tza y False\<bar> < msPerDay"
      unfolding intervalOfLevelAt_Inr(5) [OF a] intervalOfLevelAt_Inr(5) [OF b] same
      by (rule completion_mono [where tza = tza, OF z p])
    show ?thesis using p d c by blast
  qed
  show ?thesis using ret conf mono by blast
qed

theorem C4_percentiles_monotone_witness:
  "calculateConfidenceIntervalsAt utc (\<lambda>k. 0) [3, 1, 2, 5, 4] [50, 70, 85, 95] =
     Inr [\<lparr>confidence = 50, periodsRequired = 3, daysRemaining = 42, completionDate = 42\<rparr>,
          \<lparr>confidence = 70, periodsRequired = 4, daysRemaining = 56, completionDate = 56\<rparr>,
          \<lparr>confidence = 85, periodsRequired = 5, daysRemaining = 70, completionDate = 70\<rparr>,
          \<lparr>confidence = 95, periodsRequired = 5, daysRemaining = 70, completionDate = 70\<rparr>]
   \<and> map confidence
        [\<lparr>confidence = 50, periodsRequired = 3, daysRemaining = 42, completionDate = 42\<rparr>,
         \<lparr>confidence = 70, periodsRequired = 4, daysRemaining = 56, completionDate = 56\<rparr>,
         \<lparr>confidence = 85, periodsRequired = 5, daysRemaining = 70, completionDate = 70\<rparr>,
         \<lparr>confidence = 95, periodsRequired = 5, daysRemaining = 70, completionDate = 70\<rparr>]
       = [50, 70, 85, 95]
   \<and> periodsRequired \<lparr>confidence = 50, periodsRequired = 3, daysRemaining = 42, completionDate = 42\<rparr>
       \<le> periodsRequired \<lparr>confidence = 70, periodsRequired = 4, daysRemaining = 56, completionDate = 56\<rparr>
   \<and> completionDate \<lparr>confidence = 50, periodsRequired = 3, daysRemaining = 42, completionDate = 42\<rparr>
       \<le> completionDate \<lparr>confidence = 70, periodsRequired = 4, daysRemaining = 56, completionDate = 56\<rparr>"
proof -
  have e: "calculateConfidenceIntervalsAt utc (\<lambda>k. 0) [3, 1, 2, 5, 4] [50, 70, 85, 95] =
     Inr [\<lparr>confidence = 50, periodsRequired = 3, daysRemaining = 42, completionDate = 42\<rparr>,
          \<lparr>confidence = 70, periodsRequired = 4, daysRemaining = 56, completionDate = 56\<rparr>,
          \<lparr>confidence = 85, periodsRequired = 5, daysRemaining = 70, completionDate = 70\<rparr>,
          \<lparr>confidence = 95, periodsRequired = 5, daysRemaining = 70, completionDate = 70\<rparr>]"
    by code_simp
  show ?thesis
    using C4_percentiles_monotone [of "[3, 1, 2, 5, 4]" "[50, 70, 85, 95]" utc "\<lambda>k. 0",
        THEN conjunct2, rule_format, OF e] e
    by simp
qed

text \<open>
  Claim C4 as stated fails. The request \<open>[95, 50]\<close> is answered in the order 95, 50, which
  is not ascending; and when the clock passes midnight between the two callbacks, the date
  reported at 95 is a day earlier than the date reported at 50.
\<close>

theorem C4_request_order_counterexample:
  "calculateConfidenceIntervalsAt utc pastMidnight [2, 2, 2] [95, 50] =
     Inr [\<lparr>confidence = 95, periodsRequired = 2, daysRemaining = 28, completionDate = 28\<rparr>,
          \<lparr>confidence = 50, periodsRequired = 2, daysRemaining = 28, completionDate = 29\<rparr>]
   \<and> \<not> sorted (map confidence
        [\<lparr>confidence = 95, periodsRequired = 2, daysRemaining = 28, completionDate = 28\<rparr>,
         \<lparr>confidence = 50, periodsRequired = 2, daysRemaining = 28, completionDate = 29\<rparr>])
   \<and> completionDate \<lparr>confidence = 95, periodsRequired = 2, daysRemaining = 28, completionDate = 28\<rparr>
       < completionDate \<lparr>confidence = 50, periodsRequired = 2, daysRemaining = 28, completionDate = 29\<rparr>"
proof -
  have e: "calculateConfidenceIntervalsAt utc pastMidnight [2, 2, 2] [95, 50] =
     Inr [\<lparr>confidence = 95, periodsRequired = 2, daysRemaining = 28, completionDate = 28\<rparr>,
          \<lparr>confidence = 50, periodsRequired = 2, daysRemaining = 28, completionDate = 29\<rparr>]"
    by code_simp
  show ?thesis using e by simp
qed

text \<open>
  Claim C3. The rank is computed in double arithmetic as
  \<^verbatim>\<open>Math.floor(length * (level / 100))\<close>, which is not always \<open>\<lfloor>N * p / 100\<rfloor>\<close>. For 90 trial
  results and the levels 50, 70, 85, 95 that the form requests, the quotient \<open>70 / 100\<close>
  rounds below 0.7, the product is 62.99999999999999, and the element at index 62 is
  reported at the level 70, where the rank \<open>\<lfloor>90 * 70 / 100\<rfloor> = 63\<close> holds the value 63. (The
  index does stay inside the array, \<open>percentileIndex_less\<close>, and the reported value is
  one of the trial results, \<open>periodsRequired_in_results\<close>.)
\<close>

theorem C3_index_off_by_one:
  "calculateConfidenceIntervals 0 [0..<90] [50, 70, 85, 95] =
     Inr [\<lparr>confidence = 50, periodsRequired = 45, daysRemaining = 630, completionDate = 630\<rparr>,
          \<lparr>confidence = 70, periodsRequired = 62, daysRemaining = 868, completionDate = 868\<rparr>,
          \<lparr>confidence = 85, periodsRequired = 76, daysRemaining = 1064, completionDate = 1064\<rparr>,
          \<lparr>confidence = 95, periodsRequired = 85, daysRemaining = 1190, completionDate = 1190\<rparr>]
   \<and> percentileIndex 90 70 = 62
   \<and> sort [0..<90] ! (90 * 70 div 100) = 63"
  by code_simp

text \<open>
  Claim C6, as the code has it. The days added are the periods times the constant 14. They
  are added, in local calendar time, to the wall clock that the callback of the level reads,
  and the date reported is the UTC date of the result: the UTC date of the clock plus the
  days, shifted by the difference between the local offset now and the local offset then.
  Where the two offsets agree, as they always do in UTC, this is the UTC date of the clock
  plus 14 days per period. The reducer takes neither a period length nor a reference date.
\<close>

theorem C6_fourteen_days_per_period:
  assumes "calculateConfidenceIntervalsAt tza clockAt results levels = Inr ivs" "k < length ivs"
  shows "daysRemaining (ivs ! k) = periodsRequired (ivs ! k) * 14
       \<and> completionDate (ivs ! k) =
           toISODate (clockAt k + int (periodsRequired (ivs ! k)) * 14 * msPerDay
                      + tza (clockAt k) True
                      - tza (clockAt k + tza (clockAt k) True
                             + int (periodsRequired (ivs ! k)) * 14 * msPerDay) False)
       \<and> (tza (clockAt k + tza (clockAt k) True
                 + int (periodsRequired (ivs ! k)) * 14 * msPerDay) False = tza (clockAt k) True
            \<longrightarrow> completionDate (ivs ! k)
                  = toISODate (clockAt k) + int (periodsRequired (ivs ! k)) * 14)"
proof -
  note a = intervalsAt_nth(2) [OF assms]
  let ?n = "int (periodsRequired (ivs ! k)) * 14"
  have d: "daysRemaining (ivs ! k) = periodsRequired (ivs ! k) * 14"
    by (rule intervalOfLevelAt_Inr(4) [OF a])
  have c: "completionDate (ivs ! k) =
           toISODate (clockAt k + ?n * msPerDay + tza (clockAt k) True
                      - tza (clockAt k + tza (clockAt k) True + ?n * msPerDay) False)"
    using intervalOfLevelAt_Inr(5) [OF a] by (simp add: algebra_simps)
  have u: "completionDate (ivs ! k) = toISODate (clockAt k) + ?n"
    if "tza (clockAt k + tza (clockAt k) True + ?n * msPerDay) False = tza (clockAt k) True"
    unfolding c that by (simp add: toISODate_def msPerDay_def)
  show ?thesis using d c u by blast
qed

theorem C6_fourteen_days_per_period_witness:
  "calculateConfidenceIntervalsAt newYorkSpring2024 (\<lambda>k. 1709944200000) [1] [50] =
     Inr [\<lparr>confidence = 50, periodsRequired = 1, daysRemaining = 14, completionDate = 19804\<rparr>]
   \<and> toISODate 1709944200000 = 19791
   \<and> (19804 :: int) =
       toISODate (1709944200000 + 1 * 14 * msPerDay + newYorkSpring2024 1709944200000 True
                  - newYorkSpring2024 (1709944200000 + newYorkSpring2024 1709944200000 True
                                       + 1 * 14 * msPerDay) False)
   \<and> calculateConfidenceIntervalsAt utc (\<lambda>k. 0) [2, 6] [50] =
     Inr [\<lparr>confidence = 50, periodsRequired = 6, daysRemaining = 84, completionDate = 84\<rparr>]
   \<and> (84 :: int) = toISODate 0 + 6 * 14"
proof -
  have e: "calculateConfidenceIntervalsAt newYorkSpring2024 (\<lambda>k. 1709944200000) [1] [50] =
     Inr [\<lparr>confidence = 50, periodsRequired = 1, daysRemaining = 14, completionDate = 19804\<rparr>]"
    by code_simp
  have f: "calculateConfidenceIntervalsAt utc (\<lambda>k. 0) [2, 6] [50] =
     Inr [\<lparr>confidence = 50, periodsRequired = 6, daysRemaining = 84, completionDate = 84\<rparr>]"
    by code_simp
  have t: "toISODate 1709944200000 = 19791" by (simp add: toISODate_def msPerDay_def)
  show ?thesis
    using C6_fourteen_days_per_period [OF e, of 0] C6_fourteen_days_per_period [OF f, of 0] e f t
    by simp
qed

text \<open>
  Claim C6 as stated fails. In UTC, with one period required and the clock at day 0, a
  period length of 7 days would give day 7; the code reports day 14. And the same arguments
  with the clock one day later give another date: the reference date is not among them.
\<close>

theorem C6_period_length_counterexample:
  "calculateConfidenceIntervals 0 [1] [50] =
     Inr [\<lparr>confidence = 50, periodsRequired = 1, daysRemaining = 14, completionDate = 14\<rparr>]
   \<and> (14 :: int) \<noteq> toISODate 0 + 1 * 7
   \<and> calculateConfidenceIntervals msPerDay [1] [50] =
     Inr [\<lparr>confidence = 50, periodsRequired = 1, daysRemaining = 14, completionDate = 15\<rparr>]"
  by code_simp

section \<open>The input array is left alone\<close>

text \<open>
  Claim C10. In the store model, \<^verbatim>\<open>calculateConfidenceIntervals\<close> and \<^verbatim>\<open>calculateMedian\<close>
  leave every array that existed before the call as it was, the array they are given
  included: the sort works on the copy. Their results are those of the functions on values
  used elsewhere in this theory.
\<close>

theorem C10_input_array_unchanged:
  assumes "a < length h"
  shows "(\<forall>b < length h. fst (calculateConfidenceIntervals_store today h a levels) ! b = h ! b)
       \<and> snd (calculateConfidenceIntervals_store today h a levels)
           = calculateConfidenceIntervals today (h ! a) levels
       \<and> (\<forall>b < length h. fst (calculateMedian_store h a) ! b = h ! b)
       \<and> snd (calculateMedian_store h a) = calculateMedian (h ! a)"
proof -
  have s: "sortInPlace (h @ [h ! a]) (length h) = h @ [sort (h ! a)]"
    by (simp add: sortInPlace_def)
  show ?thesis
    using assms
    by (simp add: calculateConfidenceIntervals_store_def calculateMedian_store_def spread_def s
        Let_def nth_append calculateConfidenceIntervals_def calculateMedian_def)
qed

theorem C10_input_array_unchanged_witness:
  "(1::nat) < length [[7], [3, 1, 2 :: nat]]
   \<and> fst (calculateConfidenceIntervals_store 0 [[7], [3, 1, 2]] 1 [50]) ! 1 = [3, 1, 2]
   \<and> fst (calculateConfidenceIntervals_store 0 [[7], [3, 1, 2]] 1 [50]) ! 0 = [7]
   \<and> fst (calculateMedian_store [[7], [3, 1, 2]] 1) ! 1 = [3, 1, 2]
   \<and> snd (calculateMedian_store [[7], [3, 1, 2]] 1) = Finite 2"
proof -
  have h: "(1::nat) < length [[7], [3, 1, 2 :: nat]]" by simp
  have m: "calculateMedian [3, 1, 2] = Finite 2"
    by (simp add: calculateMedian_def arrayGet_def)
  show ?thesis
    using C10_input_array_unchanged [OF h, of 0 "[50]"] m by simp
qed

section \<open>Properties of the simulation runner\<close>

text \<open>The two ways through the loop.\<close>

lemma trial_loop_stop:
  "\<not> js_gt remainingPoints (Finite 0) \<Longrightarrow>
   trial_loop vd params remainingPoints p r = Some (p, r)"
  by (subst trial_loop.simps) simp

lemma trial_loop_step:
  assumes "js_gt remainingPoints (Finite 0)"
    and "effectiveVelocityOfPeriod vd params r = (ev, r')"
  shows "trial_loop vd params remainingPoints p r =
         trial_loop vd params (js_sub remainingPoints ev) (p + 1) r'"
  using assms by (subst trial_loop.simps) simp

text \<open>
  How much of the random sequence a call consumes, and that its result depends on
  nothing else of the sequence.
\<close>

lemma rng_drop_0 [simp]: "rng_drop 0 r = r"
  by (simp add: rng_drop_def)

lemma rng_drop_drop: "rng_drop a (rng_drop b r) = rng_drop (a + b) r"
  by (simp add: rng_drop_def add.assoc)








text \<open>With nothing left to do no trial enters its loop.\<close>

lemma trials_no_work:
  "totalStoryPoints \<le> 0 \<Longrightarrow>
   trials vd params totalStoryPoints n acc r = Some (acc @ replicate n 0, r)"
proof (induction n arbitrary: acc)
  case 0
  then show ?case by simp
next
  case (Suc n)
  have "trial_loop vd params (Finite totalStoryPoints) 0 r = Some (0, r)"
    using Suc.prems by (intro trial_loop_stop) simp
  then show ?case
    using Suc.IH [OF Suc.prems, of "acc @ [0]"] by (simp add: replicate_app_Cons_same)
qed

lemma trials_length:
  "trials vd params tot n acc r = Some (res, r') \<Longrightarrow> length res = length acc + n"
  by (induction n arbitrary: acc r) (auto split: option.splits)

lemma sort_replicate: "sort (replicate n (x::nat)) = replicate n x"
  by (simp add: sorted_sort_id sorted_replicate)

lemma intervalOfLevel_zero:
  assumes "0 < n" "level < 100" "\<bar>today\<bar> \<le> maxTimeValue"
  shows "intervalOfLevel today (replicate n 0) level =
         Inr \<lparr>confidence = level, periodsRequired = 0, daysRemaining = 0,
              completionDate = toISODate today\<rparr>"
proof -
  have i: "percentileIndex n level < int n" by (rule percentileIndex_less [OF assms(1,2)])
  have i0: "0 \<le> percentileIndex n level" by (rule percentileIndex_nonneg)
  have "nat (percentileIndex n level) < n" using i i0 by linarith
  then have "replicate n (0::nat) ! nat (percentileIndex n level) = 0" by simp
  then show ?thesis
    using i i0 assms(3) by (simp add: intervalOfLevel_def Let_def setDate_def)
qed

lemma runMonteCarloSimulation_no_work:
  assumes "calculateTotalRemainingStoryPoints issuesData = 0"
  shows "runMonteCarloSimulation issuesData vd n params r = Some (replicate n 0, r)"
  using assms trials_no_work [of 0 vd params n "[]" r]
  by (simp add: runMonteCarloSimulation_def)

lemma calculateConfidenceIntervals_zero:
  assumes "0 < n" "\<forall>p \<in> set levels. p < 100" "\<bar>today\<bar> \<le> maxTimeValue"
  shows "calculateConfidenceIntervals today (replicate n 0) levels
           = Inr (map (\<lambda>p. \<lparr>confidence = p, periodsRequired = 0, daysRemaining = 0,
                             completionDate = toISODate today\<rparr>) levels)"
  unfolding calculateConfidenceIntervals_def Let_def sort_replicate
  using assms by (intro mapLevels_all_Inr) (simp add: intervalOfLevel_zero)



section \<open>Properties of the sampler\<close>

text \<open>
  With a first draw in \<open>(0, 1]\<close> the logarithm is finite and not positive, and the sampled
  velocity is a finite number: the rounded sum, clamped at zero.
\<close>

lemma sampleVelocity_pos_draw:
  assumes "0 < r 0" "r 0 \<le> 1"
  shows "sampleVelocity vd r =
    (Finite (max 0 (of_int \<lfloor>mean vd + sqrt (- 2 * ln (r 0)) * cos (2 * pi * r 1) * stdDev vd + 1 / 2\<rfloor>)),
     rng_drop 2 r)"
proof -
  have "ln (r 0) \<le> 0" using assms by simp
  then have "0 \<le> - 2 * ln (r 0)" by simp
  then show ?thesis
    using assms(1)
    by (simp add: sampleVelocity_def Math_random_def rng_drop_def Let_def numeral_2_eq_2)
qed

lemma sampleVelocity_nonneg:
  assumes "0 < r 0" "r 0 \<le> 1"
  shows "\<exists>v. fst (sampleVelocity vd r) = Finite (of_int v) \<and> 0 \<le> v"
proof -
  let ?n = "\<lfloor>mean vd + sqrt (- 2 * ln (r 0)) * cos (2 * pi * r 1) * stdDev vd + 1 / 2\<rfloor>"
  have "max (0::real) (of_int ?n) = of_int (max 0 ?n)" by (simp add: max_def)
  then have "fst (sampleVelocity vd r) = Finite (of_int (max 0 ?n))"
    unfolding sampleVelocity_pos_draw [where r = r and vd = vd, OF assms] by simp
  then show ?thesis by (intro exI [of _ "max 0 ?n"]) simp
qed

lemma sampleVelocity_quarter:
  assumes "0 < r 0" "r 0 \<le> 1" "r 1 = 1 / 4"
  shows "sampleVelocity vd r = (Finite (max 0 (of_int \<lfloor>mean vd + 1 / 2\<rfloor>)), rng_drop 2 r)"
proof -
  have "cos (2 * pi * r 1) = 0" unfolding assms(3) by simp
  then show ?thesis unfolding sampleVelocity_pos_draw [where r = r and vd = vd, OF assms(1,2)] by simp
qed

text \<open>A blocker keeps a whole, non-negative velocity whole, non-negative and no larger.\<close>

lemma applyRandomBlockers_bounds:
  assumes "0 \<le> v" "0 \<le> r 1" "r 1 < 1"
  shows "\<exists>v'. fst (applyRandomBlockers (Finite (of_int v)) r) = Finite (of_int v') \<and> 0 \<le> v' \<and> v' \<le> v"
proof (cases "r 0 < 2 / 10")
  case False
  then have "fst (applyRandomBlockers (Finite (of_int v)) r) = Finite (of_int v)"
    by (simp add: applyRandomBlockers_def Math_random_def Let_def)
  then show ?thesis using assms(1) by blast
next
  case True
  let ?k = "1 - (2 / 10 + r 1 * (4 / 10))"
  let ?v' = "\<lfloor>of_int v * ?k + 1 / 2\<rfloor>"
  have k: "0 \<le> ?k" "?k \<le> 1" using assms(2,3) by simp_all
  have e: "fst (applyRandomBlockers (Finite (of_int v)) r) = Finite (of_int ?v')"
    using True by (simp add: applyRandomBlockers_def Math_random_def Let_def)
  have "0 \<le> of_int v * ?k" using assms(1) k(1) by (intro mult_nonneg_nonneg) simp_all
  then have lo: "0 \<le> ?v'" by simp
  have "of_int v * ?k \<le> of_int v * 1"
    using assms(1) k(2) by (intro mult_left_mono) simp_all
  then have "of_int v * ?k + 1 / 2 < of_int (v + 1)" by simp
  then have "?v' < v + 1" by (simp only: floor_less_iff)
  then have hi: "?v' \<le> v" by simp
  show ?thesis using e lo hi by blast
qed

text \<open>
  Claim C9. The clamp \<^verbatim>\<open>Math.max(0, ...)\<close> lets one value through that is not a non-negative
  number. When \<^verbatim>\<open>Math.random()\<close> returns 0 for the first draw, \<^verbatim>\<open>Math.log(0)\<close> is
  \<open>-Infinity\<close> and \<open>z\<close> is infinite; with the empty velocity record \<open>z * stdDev\<close> is
  \<open>Infinity * 0 = NaN\<close>, and \<open>NaN\<close> passes through \<^verbatim>\<open>Math.round\<close> and \<^verbatim>\<open>Math.max\<close>. For a first
  draw other than 0 the velocity is a non-negative whole number (\<open>sampleVelocity_nonneg\<close>),
  and a blocker does not raise it (\<open>applyRandomBlockers_bounds\<close>).
\<close>

theorem C9_velocity_not_a_number:
  "sampleVelocity emptyVelocity (\<lambda>n. 0) = (NaN, \<lambda>n. 0)"
  by (simp add: sampleVelocity_def Math_random_def signedInf_def)

section \<open>A trial that never ends\<close>

text \<open>
  With the empty velocity record every sampled velocity is 0, whatever the blockers do
  to it, as long as no first draw is 0.
\<close>

lemma sampleVelocity_no_history:
  assumes "mean vd = 0" "stdDev vd = 0" "0 < r 0" "r 0 \<le> 1"
  shows "sampleVelocity vd r = (Finite 0, rng_drop 2 r)"
  unfolding sampleVelocity_pos_draw [where r = r and vd = vd, OF assms(3,4)] using assms(1,2) by simp

lemma applyRandomBlockers_zero:
  "\<exists>j. applyRandomBlockers (Finite 0) r = (Finite 0, rng_drop j r)"
proof (cases "r 0 < 2 / 10")
  case True
  then have "applyRandomBlockers (Finite 0) r = (Finite 0, rng_drop 2 r)"
    by (simp add: applyRandomBlockers_def Math_random_def rng_drop_def Let_def numeral_2_eq_2)
  then show ?thesis by blast
next
  case False
  then have "applyRandomBlockers (Finite 0) r = (Finite 0, rng_drop 1 r)"
    by (simp add: applyRandomBlockers_def Math_random_def rng_drop_def Let_def)
  then show ?thesis by blast
qed

lemma period_no_history:
  assumes "mean vd = 0" "stdDev vd = 0" "0 < r 0" "r 0 \<le> 1"
  shows "\<exists>j. effectiveVelocityOfPeriod vd params r = (Finite 0, rng_drop j r)"
proof (cases "includeBlockers params")
  case False
  then show ?thesis
    unfolding effectiveVelocityOfPeriod_def sampleVelocity_no_history [where r = r and vd = vd, OF assms] by auto
next
  case True
  obtain j where "applyRandomBlockers (Finite 0) (rng_drop 2 r) = (Finite 0, rng_drop j (rng_drop 2 r))"
    using applyRandomBlockers_zero [of "rng_drop 2 r"] by blast
  then show ?thesis
    unfolding effectiveVelocityOfPeriod_def sampleVelocity_no_history [where r = r and vd = vd, OF assms] using True
    by (auto simp: rng_drop_drop)
qed

text \<open>The loop then keeps its remaining points, and cannot have returned.\<close>

lemma trial_loop_no_history:
  assumes "trial_loop vd params rem p r = Some y"
  shows "\<not> (mean vd = 0 \<and> stdDev vd = 0 \<and> (\<exists>x. rem = Finite x \<and> 0 < x)
            \<and> (\<forall>n. 0 < r n \<and> r n < 1))"
proof (rule trial_loop.raw_induct
    [where P = "\<lambda>vd params rem p r y.
       \<not> (mean vd = 0 \<and> stdDev vd = 0 \<and> (\<exists>x. rem = Finite x \<and> 0 < x)
            \<and> (\<forall>n. 0 < r n \<and> r n < 1))", OF _ assms])
  fix f :: "velocityData \<Rightarrow> simulationParams \<Rightarrow> jsnum \<Rightarrow> nat \<Rightarrow> rng \<Rightarrow> (nat \<times> rng) option"
    and vd params rem p r y
  assume IH: "\<And>vd params rem p r y. f vd params rem p r = Some y \<Longrightarrow>
         \<not> (mean vd = 0 \<and> stdDev vd = 0 \<and> (\<exists>x. rem = Finite x \<and> 0 < x)
              \<and> (\<forall>n. 0 < r n \<and> r n < 1))"
    and body: "(if js_gt rem (Finite 0)
              then (case effectiveVelocityOfPeriod vd params r of
                      (effectiveVelocity, r') \<Rightarrow>
                        f vd params (js_sub rem effectiveVelocity) (p + 1) r')
              else Some (p, r)) = Some y"
  show "\<not> (mean vd = 0 \<and> stdDev vd = 0 \<and> (\<exists>x. rem = Finite x \<and> 0 < x)
            \<and> (\<forall>n. 0 < r n \<and> r n < 1))"
  proof
    assume inv: "mean vd = 0 \<and> stdDev vd = 0 \<and> (\<exists>x. rem = Finite x \<and> 0 < x)
            \<and> (\<forall>n. 0 < r n \<and> r n < 1)"
    then obtain x where x: "rem = Finite x" "0 < x" by blast
    have r0: "0 < r 0" "r 0 \<le> 1" using inv by (auto intro: less_imp_le)
    obtain j where j: "effectiveVelocityOfPeriod vd params r = (Finite 0, rng_drop j r)"
      using period_no_history [of vd r params] inv r0 by blast
    have "f vd params (Finite x) (p + 1) (rng_drop j r) = Some y"
      using body x j by (simp add: js_sub_def)
    from IH [OF this] show False
      using inv x by (simp add: rng_drop_def)
  qed
qed

lemma trial_loop_diverges:
  assumes "mean vd = 0" "stdDev vd = 0" "0 < remaining" "\<forall>n. 0 < r n \<and> r n < 1"
  shows "trial_loop vd params (Finite remaining) p r = None"
proof (rule ccontr)
  assume "trial_loop vd params (Finite remaining) p r \<noteq> None"
  then obtain y where y: "trial_loop vd params (Finite remaining) p r = Some y" by auto
  show False using trial_loop_no_history [OF y] assms by simp
qed

lemma runMonteCarloSimulation_diverges:
  assumes "mean vd = 0" "stdDev vd = 0" "0 < calculateTotalRemainingStoryPoints issuesData"
    "\<forall>n. 0 < r n \<and> r n < 1" "0 < n"
  shows "runMonteCarloSimulation issuesData vd n params r = None"
proof -
  obtain m where n: "n = Suc m" using assms(5) by (cases n) auto
  show ?thesis
    unfolding runMonteCarloSimulation_def Let_def n
    using trial_loop_diverges [OF assms(1-4), of params 0] by simp
qed

text \<open>
  Claim C1, as the code has it. The loop of a trial has no bound on its period counter and
  no failure of its own: it ends only when the remaining points stop being greater than 0.
  With the empty velocity record, remaining points above 0 and no draw equal to 0, the
  trial does not end, and neither does a run of at least one trial.
\<close>

theorem C1_trial_without_bound:
  assumes "mean vd = 0" "stdDev vd = 0" "0 < remaining" "\<forall>n. 0 < r n \<and> r n < 1"
  shows "trial_loop vd params (Finite remaining) p r = None
       \<and> (calculateTotalRemainingStoryPoints issuesData = remaining \<and> 0 < n \<longrightarrow>
            runMonteCarloSimulation issuesData vd n params r = None)"
  using trial_loop_diverges [OF assms, of params p]
    runMonteCarloSimulation_diverges [OF assms(1,2) _ assms(4), of issuesData n params] assms(3)
  by auto

theorem C1_trial_without_bound_witness:
  "mean emptyVelocity = 0 \<and> stdDev emptyVelocity = 0 \<and> (0 :: real) < 3
   \<and> trial_loop emptyVelocity
        \<lparr>useHistoricalVelocity = True, periodCount = 6, includeBlockers = True\<rparr>
        (Finite 3) 0 (\<lambda>n. 1 / 2) = None
   \<and> runMonteCarloSimulation
        (Some \<lparr>issues = Some [\<lparr>customfield_10016 = Some 1\<rparr>, \<lparr>customfield_10016 = Some 2\<rparr>]\<rparr>)
        emptyVelocity 1000
        \<lparr>useHistoricalVelocity = True, periodCount = 6, includeBlockers = True\<rparr>
        (\<lambda>n. 1 / 2) = None"
proof -
  have t: "calculateTotalRemainingStoryPoints
        (Some \<lparr>issues = Some [\<lparr>customfield_10016 = Some 1\<rparr>, \<lparr>customfield_10016 = Some 2\<rparr>]\<rparr>) = 3"
    by (simp add: calculateTotalRemainingStoryPoints_def)
  show ?thesis
    using C1_trial_without_bound [of emptyVelocity 3 "\<lambda>n. 1 / 2"
        "\<lparr>useHistoricalVelocity = True, periodCount = 6, includeBlockers = True\<rparr>" 0
        "Some \<lparr>issues = Some [\<lparr>customfield_10016 = Some 1\<rparr>, \<lparr>customfield_10016 = Some 2\<rparr>]\<rparr>"
        1000] t
    by simp
qed

text \<open>What the example project answers.\<close>

lemma fetch_empty:
  "fetchHistoricalVelocity (jira points [] t r) key c = emptyVelocity"
  by (simp add: fetchHistoricalVelocity_def)

lemma fetch_mock:
  "fetchHistoricalVelocity (jira points (b # bs) t r) key c = mockVelocity"
  by (simp add: fetchHistoricalVelocity_def)

lemma total_jira:
  "calculateTotalRemainingStoryPoints (fetchProjectIssues (jira points boards t r) key) = points"
  by (simp add: calculateTotalRemainingStoryPoints_def fetchProjectIssues_def)

text \<open>
  Claim C1 as stated fails: a project without a board and with five story points left
  makes the forecast call run forever; it does not fail.
\<close>

theorem C1_no_convergence_guard_counterexample:
  "monteCarlo (jira 5 [] 0 steady) (forecastRequest 1 [50] False) = None"
proof -
  have "runMonteCarloSimulation (fetchProjectIssues (jira 5 [] 0 steady) ''P'') emptyVelocity 1
          \<lparr>useHistoricalVelocity = True, periodCount = 6, includeBlockers = False\<rparr> steady = None"
    by (rule runMonteCarloSimulation_diverges) (simp_all add: total_jira)
  then show ?thesis
    by (simp add: monteCarlo_def fetch_empty)
qed

section \<open>Runs on the example inputs\<close>

text \<open>
  One period of a trial when the second draw is \<open>1/4\<close>: the rounded mean, cut by a blocker
  when the third draw is below 0.2.
\<close>

lemma period_unblocked:
  assumes "0 < r 0" "r 0 \<le> 1" "r 1 = 1 / 4" "\<not> r 2 < 2 / 10"
  shows "effectiveVelocityOfPeriod vd params r =
    (Finite (max 0 (of_int \<lfloor>mean vd + 1 / 2\<rfloor>)), rng_drop (if includeBlockers params then 3 else 2) r)"
  unfolding effectiveVelocityOfPeriod_def sampleVelocity_quarter [where r = r and vd = vd, OF assms(1-3)]
  using assms(4)
  by (simp add: applyRandomBlockers_def Math_random_def rng_drop_def Let_def numeral_2_eq_2 numeral_3_eq_3)

lemma period_blocked:
  assumes "0 < r 0" "r 0 \<le> 1" "r 1 = 1 / 4" "r 2 < 2 / 10" "includeBlockers params"
  shows "effectiveVelocityOfPeriod vd params r =
    (Finite (of_int \<lfloor>max 0 (of_int \<lfloor>mean vd + 1 / 2\<rfloor>) * (1 - (2 / 10 + r 3 * (4 / 10))) + 1 / 2\<rfloor>),
     rng_drop 4 r)"
  unfolding effectiveVelocityOfPeriod_def sampleVelocity_quarter [where r = r and vd = vd, OF assms(1-3)]
  using assms(4,5)
  by (simp add: applyRandomBlockers_def Math_random_def rng_drop_def Let_def numeral_2_eq_2 numeral_3_eq_3
      eval_nat_numeral)

lemma period_steady:
  "effectiveVelocityOfPeriod mockVelocity params steady = (Finite 21, steady)"
proof -
  have "\<lfloor>(41 / 2 :: real) + 1 / 2\<rfloor> = 21" by simp
  then show ?thesis
    using period_unblocked [of steady mockVelocity params]
    by (simp add: rng_drop_def)
qed

lemma period_blockerAt_2:
  assumes "includeBlockers params"
  shows "effectiveVelocityOfPeriod mockVelocity params (blockerAt 2) = (Finite 13, steady)"
proof -
  have a: "\<lfloor>(41 / 2 :: real) + 1 / 2\<rfloor> = 21" by simp
  have b: "\<lfloor>(21 :: real) * (1 - (2 / 10 + 1 / 2 * (4 / 10))) + 1 / 2\<rfloor> = 13" by simp
  have d: "rng_drop 4 (blockerAt 2) = steady" by (auto simp: rng_drop_def fun_eq_iff)
  show ?thesis
    using period_blocked [of "blockerAt 2" params mockVelocity] assms
    by (simp add: a b d)
qed

lemma period_blockerAt_5:
  assumes "includeBlockers params"
  shows "effectiveVelocityOfPeriod mockVelocity params (blockerAt 5) = (Finite 21, blockerAt 2)"
proof -
  have a: "\<lfloor>(41 / 2 :: real) + 1 / 2\<rfloor> = 21" by simp
  have d: "rng_drop 3 (blockerAt 5) = blockerAt 2" by (auto simp: rng_drop_def fun_eq_iff)
  show ?thesis
    using period_unblocked [of "blockerAt 5" mockVelocity params] assms
    by (simp add: a d)
qed

text \<open>Trials over 21 story points with the fixed velocity record.\<close>

lemma trial_steady:
  "trial_loop mockVelocity params (Finite 21) 0 steady = Some (1, steady)"
proof -
  have "trial_loop mockVelocity params (Finite 21) 0 steady
      = trial_loop mockVelocity params (js_sub (Finite 21) (Finite 21)) (0 + 1) steady"
    by (rule trial_loop_step [OF _ period_steady]) simp
  also have "\<dots> = Some (1, steady)"
    by (subst trial_loop_stop) (simp_all add: js_sub_def)
  finally show ?thesis .
qed

lemma trial_blockerAt_2:
  assumes "includeBlockers params"
  shows "trial_loop mockVelocity params (Finite 21) 0 (blockerAt 2) = Some (2, steady)"
proof -
  have "trial_loop mockVelocity params (Finite 21) 0 (blockerAt 2)
      = trial_loop mockVelocity params (js_sub (Finite 21) (Finite 13)) (0 + 1) steady"
    by (rule trial_loop_step [OF _ period_blockerAt_2 [OF assms]]) simp
  also have "\<dots> = trial_loop mockVelocity params (js_sub (js_sub (Finite 21) (Finite 13)) (Finite 21)) (0 + 1 + 1) steady"
    by (rule trial_loop_step [OF _ period_steady]) (simp add: js_sub_def)
  also have "\<dots> = Some (2, steady)"
    by (subst trial_loop_stop) (simp_all add: js_sub_def)
  finally show ?thesis .
qed

lemma trial_blockerAt_5:
  assumes "includeBlockers params"
  shows "trial_loop mockVelocity params (Finite 21) 0 (blockerAt 5) = Some (1, blockerAt 2)"
proof -
  have "trial_loop mockVelocity params (Finite 21) 0 (blockerAt 5)
      = trial_loop mockVelocity params (js_sub (Finite 21) (Finite 21)) (0 + 1) (blockerAt 2)"
    by (rule trial_loop_step [OF _ period_blockerAt_5 [OF assms]]) simp
  also have "\<dots> = Some (1, blockerAt 2)"
    by (subst trial_loop_stop) (simp_all add: js_sub_def)
  finally show ?thesis .
qed





section \<open>The forecast and its random draws\<close>

lemma monteCarlo_returns:
  assumes "runMonteCarloSimulation (fetchProjectIssues w (projectKey req))
             (fetchHistoricalVelocity w (projectKey req) (periodCount (simulationParams req)))
             (iterations req) (simulationParams req) (random w) = Some (sims, r')"
    and "calculateConfidenceIntervals (clock w) sims (confidenceLevels req) = Inr ivs"
  shows "monteCarlo w req =
     Some (Inr \<lparr>resultIterations = iterations req, confidenceIntervals = ivs,
                simulationSummary =
                  \<lparr>summaryMean = calculateMean sims, median = calculateMedian sims,
                   standardDeviation = calculateStandardDeviation sims\<rparr>\<rparr>)"
  using assms by (simp add: monteCarlo_def Let_def)

lemma monteCarlo_returned:
  assumes "monteCarlo w req = Some (Inr res)"
  shows "\<exists>sims r'.
     runMonteCarloSimulation (fetchProjectIssues w (projectKey req))
       (fetchHistoricalVelocity w (projectKey req) (periodCount (simulationParams req)))
       (iterations req) (simulationParams req) (random w) = Some (sims, r')
     \<and> calculateConfidenceIntervals (clock w) sims (confidenceLevels req) = Inr (confidenceIntervals res)
     \<and> resultIterations res = iterations req
     \<and> simulationSummary res =
         \<lparr>summaryMean = calculateMean sims, median = calculateMedian sims,
          standardDeviation = calculateStandardDeviation sims\<rparr>"
  using assms by (auto simp: monteCarlo_def Let_def split: option.splits sum.splits)


lemma runMonteCarloSimulation_length:
  assumes "runMonteCarloSimulation issuesData vd n params r = Some (sims, r1)"
  shows "length sims = n"
  using trials_length [OF assms [unfolded runMonteCarloSimulation_def Let_def]] by simp




section \<open>What the forecast returns\<close>

text \<open>Two runs of two trials each: the blocker strikes in the second trial, or in the first.\<close>

lemma trials_two:
  assumes "trial_loop vd params (Finite tot) 0 r = Some (a, r1)"
    and "trial_loop vd params (Finite tot) 0 r1 = Some (b, r2)"
  shows "trials vd params tot 2 [] r = Some ([a, b], r2)"
  using assms by (simp add: numeral_2_eq_2)

lemma run_blockerAt_5:
  assumes "includeBlockers params"
  shows "runMonteCarloSimulation (fetchProjectIssues (jira 21 bs t r) key) mockVelocity 2 params
           (blockerAt 5) = Some ([1, 2], steady)"
  unfolding runMonteCarloSimulation_def Let_def total_jira
  by (rule trials_two [OF trial_blockerAt_5 [OF assms] trial_blockerAt_2 [OF assms]])

lemma run_blockerAt_2:
  assumes "includeBlockers params"
  shows "runMonteCarloSimulation (fetchProjectIssues (jira 21 bs t r) key) mockVelocity 2 params
           (blockerAt 2) = Some ([2, 1], steady)"
  unfolding runMonteCarloSimulation_def Let_def total_jira
  by (rule trials_two [OF trial_blockerAt_2 [OF assms] trial_steady])

lemma sqrt_quarter: "sqrt (1 / 4) = 1 / 2"
  by (simp add: real_sqrt_divide)

lemma summary_12:
  "calculateMean [1, 2] = Finite (3 / 2)" "calculateMedian [1, 2] = Finite (3 / 2)"
  "calculateStandardDeviation [1, 2] = Finite (1 / 2)"
  by (simp_all add: calculateMean_def calculateMedian_def calculateStandardDeviation_def
      arrayGet_def js_sub_def power2_eq_square sqrt_quarter)

lemma summary_21:
  "calculateMean [2, 1] = Finite (3 / 2)" "calculateMedian [2, 1] = Finite (3 / 2)"
  "calculateStandardDeviation [2, 1] = Finite (1 / 2)"
  by (simp_all add: calculateMean_def calculateMedian_def calculateStandardDeviation_def
      arrayGet_def js_sub_def power2_eq_square sqrt_quarter)

lemma intervals_12: "calculateConfidenceIntervals 0 [1, 2] [50] =
    Inr [\<lparr>confidence = 50, periodsRequired = 2, daysRemaining = 28, completionDate = 28\<rparr>]"
  by code_simp

lemma intervals_21: "calculateConfidenceIntervals 0 [2, 1] [50] =
    Inr [\<lparr>confidence = 50, periodsRequired = 2, daysRemaining = 28, completionDate = 28\<rparr>]"
  by code_simp

lemma forecast_blockerAt_5:
  "monteCarlo (jira 21 [1] 0 (blockerAt 5)) (forecastRequest 2 [50] True) =
     Some (Inr \<lparr>resultIterations = 2,
                confidenceIntervals =
                  [\<lparr>confidence = 50, periodsRequired = 2, daysRemaining = 28, completionDate = 28\<rparr>],
                simulationSummary =
                  \<lparr>summaryMean = Finite (3 / 2), median = Finite (3 / 2),
                   standardDeviation = Finite (1 / 2)\<rparr>\<rparr>)"
proof -
  have run: "runMonteCarloSimulation
      (fetchProjectIssues (jira 21 [1] 0 (blockerAt 5)) (projectKey (forecastRequest 2 [50] True)))
      (fetchHistoricalVelocity (jira 21 [1] 0 (blockerAt 5)) (projectKey (forecastRequest 2 [50] True))
         (periodCount (simulationParams (forecastRequest 2 [50] True))))
      (iterations (forecastRequest 2 [50] True)) (simulationParams (forecastRequest 2 [50] True))
      (random (jira 21 [1] 0 (blockerAt 5))) = Some ([1, 2], steady)"
    using run_blockerAt_5 [where params = "simulationParams (forecastRequest 2 [50] True)" and bs = "[1]"
        and t = 0 and r = "blockerAt 5" and key = "''P''"]
    by (simp add: fetch_mock [unfolded One_nat_def])
  have iv: "calculateConfidenceIntervals (clock (jira 21 [1] 0 (blockerAt 5))) [1, 2]
      (confidenceLevels (forecastRequest 2 [50] True)) =
    Inr [\<lparr>confidence = 50, periodsRequired = 2, daysRemaining = 28, completionDate = 28\<rparr>]"
    using intervals_12 by simp
  show ?thesis
    using monteCarlo_returns [OF run iv] by (simp add: summary_12 [unfolded One_nat_def])
qed

lemma forecast_blockerAt_2:
  "monteCarlo (jira 21 [1] 0 (blockerAt 2)) (forecastRequest 2 [50] True) =
     Some (Inr \<lparr>resultIterations = 2,
                confidenceIntervals =
                  [\<lparr>confidence = 50, periodsRequired = 2, daysRemaining = 28, completionDate = 28\<rparr>],
                simulationSummary =
                  \<lparr>summaryMean = Finite (3 / 2), median = Finite (3 / 2),
                   standardDeviation = Finite (1 / 2)\<rparr>\<rparr>)"
proof -
  have run: "runMonteCarloSimulation
      (fetchProjectIssues (jira 21 [1] 0 (blockerAt 2)) (projectKey (forecastRequest 2 [50] True)))
      (fetchHistoricalVelocity (jira 21 [1] 0 (blockerAt 2)) (projectKey (forecastRequest 2 [50] True))
         (periodCount (simulationParams (forecastRequest 2 [50] True))))
      (iterations (forecastRequest 2 [50] True)) (simulationParams (forecastRequest 2 [50] True))
      (random (jira 21 [1] 0 (blockerAt 2))) = Some ([2, 1], steady)"
    using run_blockerAt_2 [where params = "simulationParams (forecastRequest 2 [50] True)" and bs = "[1]"
        and t = 0 and r = "blockerAt 2" and key = "''P''"]
    by (simp add: fetch_mock [unfolded One_nat_def])
  have iv: "calculateConfidenceIntervals (clock (jira 21 [1] 0 (blockerAt 2))) [2, 1]
      (confidenceLevels (forecastRequest 2 [50] True)) =
    Inr [\<lparr>confidence = 50, periodsRequired = 2, daysRemaining = 28, completionDate = 28\<rparr>]"
    using intervals_21 by simp
  show ?thesis
    using monteCarlo_returns [OF run iv] by (simp add: summary_21 [unfolded One_nat_def])
qed

text \<open>
  Claim C7, as the code has it. The object \<^verbatim>\<open>monteCarlo\<close> returns has three keys: the requested
  iteration count, the confidence intervals and the summary. The trial results, of which
  the simulation produced exactly as many as iterations were requested, are the source of
  the intervals and the summary and are not returned themselves.
\<close>

theorem C7_result_fields:
  assumes "monteCarlo w req = Some (Inr res)"
  shows "\<exists>sims r'.
     runMonteCarloSimulation (fetchProjectIssues w (projectKey req))
       (fetchHistoricalVelocity w (projectKey req) (periodCount (simulationParams req)))
       (iterations req) (simulationParams req) (random w) = Some (sims, r')
     \<and> length sims = iterations req
     \<and> res = \<lparr>resultIterations = iterations req,
               confidenceIntervals = confidenceIntervals res,
               simulationSummary =
                 \<lparr>summaryMean = calculateMean sims, median = calculateMedian sims,
                  standardDeviation = calculateStandardDeviation sims\<rparr>\<rparr>
     \<and> calculateConfidenceIntervals (clock w) sims (confidenceLevels req)
         = Inr (confidenceIntervals res)"
proof -
  obtain sims r' where run: "runMonteCarloSimulation (fetchProjectIssues w (projectKey req))
       (fetchHistoricalVelocity w (projectKey req) (periodCount (simulationParams req)))
       (iterations req) (simulationParams req) (random w) = Some (sims, r')"
    and iv: "calculateConfidenceIntervals (clock w) sims (confidenceLevels req) = Inr (confidenceIntervals res)"
    and it: "resultIterations res = iterations req"
    and su: "simulationSummary res =
         \<lparr>summaryMean = calculateMean sims, median = calculateMedian sims,
          standardDeviation = calculateStandardDeviation sims\<rparr>"
    using monteCarlo_returned [OF assms] by blast
  have "length sims = iterations req" by (rule runMonteCarloSimulation_length [OF run])
  moreover have "res = \<lparr>resultIterations = iterations req,
               confidenceIntervals = confidenceIntervals res,
               simulationSummary =
                 \<lparr>summaryMean = calculateMean sims, median = calculateMedian sims,
                  standardDeviation = calculateStandardDeviation sims\<rparr>\<rparr>"
    using it su by (cases res) simp
  ultimately show ?thesis using run iv by blast
qed

theorem C7_result_fields_witness:
  "monteCarlo (jira 21 [1] 0 (blockerAt 5)) (forecastRequest 2 [50] True) =
     Some (Inr \<lparr>resultIterations = 2,
                confidenceIntervals =
                  [\<lparr>confidence = 50, periodsRequired = 2, daysRemaining = 28, completionDate = 28\<rparr>],
                simulationSummary =
                  \<lparr>summaryMean = Finite (3 / 2), median = Finite (3 / 2),
                   standardDeviation = Finite (1 / 2)\<rparr>\<rparr>)
   \<and> (\<exists>sims r'.
     runMonteCarloSimulation (fetchProjectIssues (jira 21 [1] 0 (blockerAt 5)) ''P'') mockVelocity 2
       (simulationParams (forecastRequest 2 [50] True)) (blockerAt 5) = Some (sims, r')
     \<and> length sims = 2
     \<and> calculateConfidenceIntervals 0 sims [50]
         = Inr [\<lparr>confidence = 50, periodsRequired = 2, daysRemaining = 28, completionDate = 28\<rparr>])"
proof -
  note e = forecast_blockerAt_5
  from C7_result_fields [OF e] obtain sims r' where
    "runMonteCarloSimulation (fetchProjectIssues (jira 21 [1] 0 (blockerAt 5)) ''P'') mockVelocity 2
       (simulationParams (forecastRequest 2 [50] True)) (blockerAt 5) = Some (sims, r')"
    "length sims = 2"
    "calculateConfidenceIntervals 0 sims [50]
         = Inr [\<lparr>confidence = 50, periodsRequired = 2, daysRemaining = 28, completionDate = 28\<rparr>]"
    by (auto simp: fetch_mock [unfolded One_nat_def])
  then show ?thesis using e by blast
qed

text \<open>
  Claim C7 as stated fails: two runs whose trial results are \<open>[1, 2]\<close> and \<open>[2, 1]\<close> return
  the same object, so the object does not hold the sequence of trial results.
\<close>

theorem C7_raw_results_not_returned_counterexample:
  "runMonteCarloSimulation (fetchProjectIssues (jira 21 [1] 0 (blockerAt 5)) ''P'') mockVelocity 2
      (simulationParams (forecastRequest 2 [50] True)) (blockerAt 5) = Some ([1, 2], steady)
   \<and> runMonteCarloSimulation (fetchProjectIssues (jira 21 [1] 0 (blockerAt 2)) ''P'') mockVelocity 2
      (simulationParams (forecastRequest 2 [50] True)) (blockerAt 2) = Some ([2, 1], steady)
   \<and> monteCarlo (jira 21 [1] 0 (blockerAt 5)) (forecastRequest 2 [50] True)
      = monteCarlo (jira 21 [1] 0 (blockerAt 2)) (forecastRequest 2 [50] True)
   \<and> monteCarlo (jira 21 [1] 0 (blockerAt 5)) (forecastRequest 2 [50] True) =
     Some (Inr \<lparr>resultIterations = 2,
                confidenceIntervals =
                  [\<lparr>confidence = 50, periodsRequired = 2, daysRemaining = 28, completionDate = 28\<rparr>],
                simulationSummary =
                  \<lparr>summaryMean = Finite (3 / 2), median = Finite (3 / 2),
                   standardDeviation = Finite (1 / 2)\<rparr>\<rparr>)"
  using run_blockerAt_5 [where params = "simulationParams (forecastRequest 2 [50] True)" and bs = "[1]"
        and t = 0 and r = "blockerAt 5" and key = "''P''"]
    run_blockerAt_2 [where params = "simulationParams (forecastRequest 2 [50] True)" and bs = "[1]"
        and t = 0 and r = "blockerAt 2" and key = "''P''"]
    forecast_blockerAt_5 forecast_blockerAt_2
  by simp

section \<open>A project without history\<close>

lemma fetchHistoricalVelocity_no_board:
  assumes "boardValues (boardResponse w key) = None \<or> boardValues (boardResponse w key) = Some []"
  shows "fetchHistoricalVelocity w key c = emptyVelocity"
  using assms by (auto simp: fetchHistoricalVelocity_def)

text \<open>
  Claim C8, as the code has it. For a project without a board \<^verbatim>\<open>fetchHistoricalVelocity\<close>
  returns the empty velocity record, and the forecast simulates with it; the code has no
  failure for missing history. The outcome is the instant completion at every level when
  no story points remain, and a call that never returns when some remain (no draw being 0).
\<close>

theorem C8_empty_history_is_simulated:
  assumes "boardValues (boardResponse w (projectKey req)) = None
         \<or> boardValues (boardResponse w (projectKey req)) = Some []"
  shows "fetchHistoricalVelocity w (projectKey req) c = emptyVelocity
       \<and> (calculateTotalRemainingStoryPoints (fetchProjectIssues w (projectKey req)) = 0
            \<and> 0 < iterations req \<and> (\<forall>p \<in> set (confidenceLevels req). p < 100)
            \<and> \<bar>clock w\<bar> \<le> maxTimeValue \<longrightarrow>
          (\<exists>res. monteCarlo w req = Some (Inr res)
             \<and> map periodsRequired (confidenceIntervals res) = map (\<lambda>p. 0) (confidenceLevels req)))
       \<and> (0 < calculateTotalRemainingStoryPoints (fetchProjectIssues w (projectKey req))
            \<and> 0 < iterations req \<and> (\<forall>n. 0 < random w n \<and> random w n < 1) \<longrightarrow>
          monteCarlo w req = None)"
proof -
  let ?issues = "fetchProjectIssues w (projectKey req)"
  let ?vd = "fetchHistoricalVelocity w (projectKey req) (periodCount (simulationParams req))"
  have vd: "?vd = emptyVelocity" by (rule fetchHistoricalVelocity_no_board [OF assms])
  have a: "fetchHistoricalVelocity w (projectKey req) c = emptyVelocity"
    by (rule fetchHistoricalVelocity_no_board [OF assms])
  have b: "\<exists>res. monteCarlo w req = Some (Inr res)
             \<and> map periodsRequired (confidenceIntervals res) = map (\<lambda>p. 0) (confidenceLevels req)"
    if z: "calculateTotalRemainingStoryPoints ?issues = 0" and n: "0 < iterations req"
      and l: "\<forall>p \<in> set (confidenceLevels req). p < 100" and t: "\<bar>clock w\<bar> \<le> maxTimeValue"
  proof -
    have run: "runMonteCarloSimulation ?issues ?vd (iterations req) (simulationParams req) (random w)
        = Some (replicate (iterations req) 0, random w)"
      by (rule runMonteCarloSimulation_no_work [OF z])
    have iv: "calculateConfidenceIntervals (clock w) (replicate (iterations req) 0) (confidenceLevels req)
        = Inr (map (\<lambda>p. \<lparr>confidence = p, periodsRequired = 0, daysRemaining = 0,
                             completionDate = toISODate (clock w)\<rparr>) (confidenceLevels req))"
      by (rule calculateConfidenceIntervals_zero [OF n l t])
    show ?thesis
      unfolding monteCarlo_returns [OF run iv] by (simp add: comp_def)
  qed
  have d: "monteCarlo w req = None"
    if p: "0 < calculateTotalRemainingStoryPoints ?issues" and n: "0 < iterations req"
      and r: "\<forall>n. 0 < random w n \<and> random w n < 1"
  proof -
    have "runMonteCarloSimulation ?issues emptyVelocity (iterations req) (simulationParams req) (random w) = None"
      by (rule runMonteCarloSimulation_diverges [OF _ _ p r n]) simp_all
    then show ?thesis unfolding monteCarlo_def Let_def vd by simp
  qed
  show ?thesis using a b d by blast
qed

theorem C8_empty_history_is_simulated_witness:
  "boardValues (boardResponse (jira 0 [] 0 steady) ''P'') = Some []
   \<and> fetchHistoricalVelocity (jira 0 [] 0 steady) ''P'' 6 = emptyVelocity
   \<and> (\<exists>res. monteCarlo (jira 0 [] 0 steady) (forecastRequest 1000 [50, 70, 85, 95] True) = Some (Inr res)
         \<and> map periodsRequired (confidenceIntervals res) = [0, 0, 0, 0])
   \<and> boardValues (boardResponse (jira 8 [] 0 steady) ''P'') = Some []
   \<and> monteCarlo (jira 8 [] 0 steady) (forecastRequest 1000 [50, 70, 85, 95] True) = None"
proof -
  have b0: "boardValues (boardResponse (jira 0 [] 0 steady) (projectKey (forecastRequest 1000 [50, 70, 85, 95] True))) = None
      \<or> boardValues (boardResponse (jira 0 [] 0 steady) (projectKey (forecastRequest 1000 [50, 70, 85, 95] True))) = Some []"
    by simp
  have b8: "boardValues (boardResponse (jira 8 [] 0 steady) (projectKey (forecastRequest 1000 [50, 70, 85, 95] True))) = None
      \<or> boardValues (boardResponse (jira 8 [] 0 steady) (projectKey (forecastRequest 1000 [50, 70, 85, 95] True))) = Some []"
    by simp
  show ?thesis
    using C8_empty_history_is_simulated [OF b0, of 6] C8_empty_history_is_simulated [OF b8, of 6]
    by (simp add: total_jira maxTimeValue_def)
qed

lemma summary_000:
  "calculateMean [0, 0, 0] = Finite 0" "calculateMedian [0, 0, 0] = Finite 0"
  "calculateStandardDeviation [0, 0, 0] = Finite 0"
  by (simp_all add: calculateMean_def calculateMedian_def calculateStandardDeviation_def
      arrayGet_def js_sub_def)

text \<open>
  Claim C8 as stated fails: without any history the forecast call returns a result, the
  instant completion, where the claim has it fail before simulating.
\<close>

theorem C8_no_history_failure_counterexample:
  "fetchHistoricalVelocity (jira 0 [] 0 steady) ''P'' 6 = emptyVelocity
   \<and> monteCarlo (jira 0 [] 0 steady) (forecastRequest 3 [50, 95] True) =
     Some (Inr \<lparr>resultIterations = 3,
                confidenceIntervals =
                  [\<lparr>confidence = 50, periodsRequired = 0, daysRemaining = 0, completionDate = 0\<rparr>,
                   \<lparr>confidence = 95, periodsRequired = 0, daysRemaining = 0, completionDate = 0\<rparr>],
                simulationSummary =
                  \<lparr>summaryMean = Finite 0, median = Finite 0, standardDeviation = Finite 0\<rparr>\<rparr>)"
proof -
  have z: "calculateTotalRemainingStoryPoints
      (fetchProjectIssues (jira 0 [] 0 steady) (projectKey (forecastRequest 3 [50, 95] True))) = 0"
    by (rule total_jira)
  have r: "replicate 3 (0::nat) = [0, 0, 0]" by (simp add: numeral_3_eq_3)
  have run: "runMonteCarloSimulation
      (fetchProjectIssues (jira 0 [] 0 steady) (projectKey (forecastRequest 3 [50, 95] True)))
      (fetchHistoricalVelocity (jira 0 [] 0 steady) (projectKey (forecastRequest 3 [50, 95] True))
         (periodCount (simulationParams (forecastRequest 3 [50, 95] True))))
      (iterations (forecastRequest 3 [50, 95] True)) (simulationParams (forecastRequest 3 [50, 95] True))
      (random (jira 0 [] 0 steady)) = Some ([0, 0, 0], steady)"
    using runMonteCarloSimulation_no_work [OF z] by (simp add: r)
  have iv: "calculateConfidenceIntervals (clock (jira 0 [] 0 steady)) [0, 0, 0]
      (confidenceLevels (forecastRequest 3 [50, 95] True)) =
      Inr [\<lparr>confidence = 50, periodsRequired = 0, daysRemaining = 0, completionDate = 0\<rparr>,
           \<lparr>confidence = 95, periodsRequired = 0, daysRemaining = 0, completionDate = 0\<rparr>]"
    using calculateConfidenceIntervals_zero [of 3 "[50, 95]" 0]
    by (simp add: r maxTimeValue_def toISODate_def)
  show ?thesis
    using monteCarlo_returns [OF run iv] by (simp add: summary_000 fetch_empty)
qed

end
